theory Spec2Isabelle
  imports Main
begin

section \<open>Data model\<close>

text \<open>
  The repository holds two variants of the shopping-list component
  (\<^verbatim>\<open>function App\<close>): \<^verbatim>\<open>src/unnamed/part_000\<close> and
  \<^verbatim>\<open>src/unnamed/part_001\<close>.  The definitions translated from
  \<^verbatim>\<open>part_000\<close> carry the source's names; those translated from
  \<^verbatim>\<open>part_001\<close> carry the suffix \<open>_p1\<close>.

  A JavaScript \<^verbatim>\<open>number\<close> is an IEEE double.  The development is parametric in
  the number type \<open>'n\<close> and uses nothing of it but \<open>0\<close>, \<open>+\<close>, \<open>*\<close> and
  \<open>\<le>\<close>, so no law of arithmetic is assumed.

  \<^verbatim>\<open>interface ShoppingItem\<close>: the fields other than \<^verbatim>\<open>id\<close> form the
  document that is sent to the remote store
  (\<^verbatim>\<open>const { id, ...itemData } = item\<close>), so the item is a record extension
  of the document.  The fields \<^verbatim>\<open>id\<close> and \<^verbatim>\<open>total\<close> are written \<open>id'\<close>
  and \<open>total'\<close>.
\<close>

record 'n ItemData =
  name :: string
  quantity :: 'n
  unitPrice :: 'n
  total' :: 'n
  completed :: bool
  createdAt :: string
  updatedAt :: string

record 'n ShoppingItem = "'n ItemData" +
  id' :: string

text \<open>
  \<^verbatim>\<open>interface NewItemState\<close>, the form being edited.  In \<^verbatim>\<open>part_000\<close> the price
  is the text of the input field, in \<^verbatim>\<open>part_001\<close> it is a number: the type
  \<open>'p\<close> of the price field is a parameter.
\<close>

record ('n, 'p) NewItemState =
  new_name :: string
  new_quantity :: 'n
  new_unitPrice :: 'p

text \<open>The calls made to the remote document store, in the order they are issued.\<close>

datatype 'n remote_call =
    AddDoc "'n ItemData"
  | UpdateDoc string "'n ItemData"
  | DeleteDoc string
  | GetDocs

text \<open>
  The state of the component: the \<^verbatim>\<open>useState\<close> cells, the connectivity flag,
  the \<^verbatim>\<open>localStorage\<close> entry \<^verbatim>\<open>'shopping-items'\<close> (\<open>None\<close> when the key is
  absent; the stored JSON text is modelled by the list it parses to), the state
  \<open>remote\<close> of the remote store, of an arbitrary type \<open>'r\<close>, and the log
  \<open>calls\<close> of the remote calls issued so far.  The flag \<open>isOnline\<close> stands for
  the state cell of \<^verbatim>\<open>useOnlineStatus\<close> and for \<^verbatim>\<open>navigator.onLine\<close>, which
  the cell mirrors.
\<close>

record ('n, 'p, 'r) App =
  items :: "'n ShoppingItem list"
  isAddingItem :: bool
  isEditingItem :: "string option"
  newItem :: "('n, 'p) NewItemState"
  pendingChanges :: "'n ShoppingItem list"
  isOnline :: bool
  localStorage :: "'n ShoppingItem list option"
  remote :: 'r
  calls :: "'n remote_call list"

text \<open>
  The collaborators the component calls.  Each remote operation takes the state
  of the remote store and returns its answer with the next state; a rejected
  promise is \<open>None\<close> (or \<open>False\<close>).  \<open>addDoc\<close> answers with the key of the new
  document, \<open>getDocs\<close> with the documents and their keys.  \<open>parseFloat\<close> is
  JavaScript's, \<open>None\<close> standing for \<^verbatim>\<open>NaN\<close>.
\<close>

record ('n, 'r) Env =
  addDoc :: "'r \<Rightarrow> 'n ItemData \<Rightarrow> string option \<times> 'r"
  updateDoc :: "'r \<Rightarrow> string \<Rightarrow> 'n ItemData \<Rightarrow> bool \<times> 'r"
  deleteDoc :: "'r \<Rightarrow> string \<Rightarrow> bool \<times> 'r"
  getDocs :: "'r \<Rightarrow> (string \<times> 'n ItemData) list option \<times> 'r"
  parseFloat :: "string \<Rightarrow> 'n option"

text \<open>
  The readings of the clock during one call of a handler: \<open>dateNow\<close> is the
  decimal text of \<^verbatim>\<open>Date.now()\<close>, \<open>toISOString k\<close> the result of the \<open>k\<close>-th
  evaluation of \<^verbatim>\<open>new Date().toISOString()\<close>, and \<open>randomUUID\<close> the result of
  \<^verbatim>\<open>crypto.randomUUID()\<close>.
\<close>

record Clock =
  dateNow :: string
  toISOString :: "nat \<Rightarrow> string"
  randomUUID :: string

section \<open>Helpers\<close>

text \<open>\<^verbatim>\<open>s.startsWith(sub)\<close> and \<^verbatim>\<open>s.includes(sub)\<close> on strings.\<close>

fun startsWith :: "string \<Rightarrow> string \<Rightarrow> bool" where
  "startsWith s [] = True"
| "startsWith [] (c # sub) = False"
| "startsWith (d # s) (c # sub) = (d = c \<and> startsWith s sub)"

fun includes_str :: "string \<Rightarrow> string \<Rightarrow> bool" where
  "includes_str [] sub = startsWith [] sub"
| "includes_str (d # s) sub = (startsWith (d # s) sub \<or> includes_str s sub)"

text \<open>\<^verbatim>\<open>const { id, ...itemData } = item\<close> and \<^verbatim>\<open>{ ...doc.data(), id: doc.id }\<close>.\<close>

definition withoutId :: "'n ShoppingItem \<Rightarrow> 'n ItemData" where
  "withoutId item = ItemData.truncate item"

definition withId :: "string \<times> 'n ItemData \<Rightarrow> 'n ShoppingItem" where
  "withId d = ItemData.extend (snd d) (ShoppingItem.fields (fst d))"

text \<open>
  \<^verbatim>\<open>prevItem.id === item.id ? { ...prevItem, id: docRef.id } : prevItem\<close>, the
  function mapped over a collection when a document has been created.
\<close>

definition rekey :: "string \<Rightarrow> string \<Rightarrow> 'n ShoppingItem \<Rightarrow> 'n ShoppingItem" where
  "rekey oldId newId prevItem =
     (if id' prevItem = oldId then prevItem\<lparr>id' := newId\<rparr> else prevItem)"

text \<open>\<^verbatim>\<open>localItems ? JSON.parse(localItems) : []\<close>.\<close>

definition parseStored :: "'n ShoppingItem list option \<Rightarrow> 'n ShoppingItem list" where
  "parseStored localItems = (case localItems of None \<Rightarrow> [] | Some xs \<Rightarrow> xs)"

definition logCall :: "'n remote_call \<Rightarrow> 'r \<Rightarrow> ('n, 'p, 'r) App \<Rightarrow> ('n, 'p, 'r) App" where
  "logCall c r s = s\<lparr>remote := r, calls := calls s @ [c]\<rparr>"

definition enqueue :: "'n ShoppingItem \<Rightarrow> ('n, 'p, 'r) App \<Rightarrow> ('n, 'p, 'r) App" where
  "enqueue item s = s\<lparr>pendingChanges := pendingChanges s @ [item]\<rparr>"

section \<open>The component of \<^verbatim>\<open>part_000\<close>\<close>

text \<open>
  A handler is a function from the state at the moment of the call to the state
  when it has finished; the values a handler closes over (\<^verbatim>\<open>items\<close>,
  \<^verbatim>\<open>isOnline\<close>, \<^verbatim>\<open>newItem\<close>) are those of the state at the call, and an
  updater \<^verbatim>\<open>setX(prev => ...)\<close> applies to the state reached so far.  Writing
  to \<^verbatim>\<open>localStorage\<close> is taken to succeed.
\<close>

definition saveToStorage ::
  "'n ShoppingItem list \<Rightarrow> ('n, 'p, 'r) App \<Rightarrow> ('n, 'p, 'r) App" where
  "saveToStorage updatedItems s = s\<lparr>items := updatedItems, localStorage := Some updatedItems\<rparr>"

definition parseCurrency :: "('n::zero, 'r) Env \<Rightarrow> string \<Rightarrow> 'n" where
  "parseCurrency env v =
     (if v = [] then 0
      else
        let cleanValue =
              map (\<lambda>c. if c = CHR '','' then CHR ''.'' else c)
                (filter (\<lambda>c. c \<in> set ''0123456789,'') v)
        in (case parseFloat env cleanValue of None \<Rightarrow> 0 | Some x \<Rightarrow> x))"

text \<open>The empty form, \<^verbatim>\<open>{ name: '', quantity: 1, unitPrice: '' }\<close>.\<close>

definition emptyForm :: "('n::one, string) NewItemState" where
  "emptyForm = \<lparr>new_name = [], new_quantity = 1, new_unitPrice = []\<rparr>"

definition loadItems ::
  "('n, 'r) Env \<Rightarrow> ('n, 'p, 'r) App \<Rightarrow> ('n, 'p, 'r) App" where
  "loadItems env s =
     (let localData = parseStored (localStorage s) in
      if isOnline s then
        (case getDocs env (remote s) of
           (Some docs, r) \<Rightarrow>
             (let fetchedItems = map withId docs; s1 = logCall GetDocs r s in
              if fetchedItems \<noteq> [] then
                s1\<lparr>items := fetchedItems, localStorage := Some fetchedItems\<rparr>
              else if localData \<noteq> [] then s1\<lparr>items := localData\<rparr>
              else s1)
         | (None, r) \<Rightarrow>
             (let s1 = logCall GetDocs r s in
              if localData \<noteq> [] then s1\<lparr>items := localData\<rparr> else s1))
      else if localData \<noteq> [] then s\<lparr>items := localData\<rparr>
      else s)"

text \<open>
  The body of the loop of \<^verbatim>\<open>syncPendingChanges\<close> for one queued record: the
  state after it, and whether the inner \<^verbatim>\<open>try\<close> block completed (\<open>False\<close>: the
  record is pushed on \<^verbatim>\<open>failedChanges\<close>).
\<close>

definition syncItem ::
  "('n, 'r) Env \<Rightarrow> 'n ShoppingItem \<Rightarrow> ('n, 'p, 'r) App \<Rightarrow> ('n, 'p, 'r) App \<times> bool" where
  "syncItem env item s =
     (if \<not> includes_str (id' item) ''local-'' then
        (case updateDoc env (remote s) (id' item) (withoutId item) of
           (ok, r) \<Rightarrow> (logCall (UpdateDoc (id' item) (withoutId item)) r s, ok))
      else
        (case addDoc env (remote s) (withoutId item) of
           (None, r) \<Rightarrow> (logCall (AddDoc (withoutId item)) r s, False)
         | (Some docRef, r) \<Rightarrow>
             (let s1 = logCall (AddDoc (withoutId item)) r s;
                  s2 = s1\<lparr>items := map (rekey (id' item) docRef) (items s1)\<rparr>;
                  currentItems = (case localStorage s2 of None \<Rightarrow> [] | Some xs \<Rightarrow> xs);
                  updatedItems = map (rekey (id' item) docRef) currentItems
              in (s2\<lparr>localStorage := Some updatedItems\<rparr>, True))))"

fun syncLoop ::
  "('n, 'r) Env \<Rightarrow> 'n ShoppingItem list \<Rightarrow> ('n, 'p, 'r) App \<Rightarrow> 'n ShoppingItem list \<Rightarrow>
     ('n, 'p, 'r) App \<times> 'n ShoppingItem list" where
  "syncLoop env [] s failedChanges = (s, failedChanges)"
| "syncLoop env (item # rest) s failedChanges =
     (case syncItem env item s of
        (s1, ok) \<Rightarrow>
          syncLoop env rest s1 (if ok then failedChanges else failedChanges @ [item]))"

definition syncPendingChanges ::
  "('n, 'r) Env \<Rightarrow> ('n, 'p, 'r) App \<Rightarrow> ('n, 'p, 'r) App" where
  "syncPendingChanges env s =
     (if pendingChanges s = [] then s
      else
        (case syncLoop env (pendingChanges s) s [] of
           (s1, failedChanges) \<Rightarrow> s1\<lparr>pendingChanges := failedChanges\<rparr>))"

text \<open>
  The object literals of \<^verbatim>\<open>handleAddItem\<close>: the document passed to
  \<^verbatim>\<open>addDoc\<close> and the item \<^verbatim>\<open>newItemData\<close>, built from the form's name and
  quantity, the parsed price, their product and two readings of the clock.
\<close>

definition newDoc ::
  "('n::times, 'p) NewItemState \<Rightarrow> 'n \<Rightarrow> string \<Rightarrow> string \<Rightarrow> 'n ItemData" where
  "newDoc form parsedPrice c u =
     \<lparr>name = new_name form, quantity = new_quantity form, unitPrice = parsedPrice,
      total' = new_quantity form * parsedPrice, completed = False,
      createdAt = c, updatedAt = u\<rparr>"

definition newItemData ::
  "string \<Rightarrow> ('n::times, 'p) NewItemState \<Rightarrow> 'n \<Rightarrow> string \<Rightarrow> string \<Rightarrow> 'n ShoppingItem" where
  "newItemData i form parsedPrice c u =
     \<lparr>name = new_name form, quantity = new_quantity form, unitPrice = parsedPrice,
      total' = new_quantity form * parsedPrice, completed = False,
      createdAt = c, updatedAt = u, id' = i\<rparr>"

text \<open>
  The offline branch and the \<^verbatim>\<open>catch\<close> branch of \<^verbatim>\<open>handleAddItem\<close> end alike:
  \<^verbatim>\<open>saveToStorage([...items, newItemData])\<close>, then
  \<^verbatim>\<open>setPendingChanges(prev => [...prev, newItemData])\<close>.
\<close>

definition addLocally ::
  "'n ShoppingItem \<Rightarrow> 'n ShoppingItem list \<Rightarrow> ('n, 'p, 'r) App \<Rightarrow> ('n, 'p, 'r) App" where
  "addLocally item its s = enqueue item (saveToStorage (its @ [item]) s)"

definition handleAddItem ::
  "('n::{zero, one, times, ord}, 'r) Env \<Rightarrow> Clock \<Rightarrow> ('n, string, 'r) App \<Rightarrow> ('n, string, 'r) App" where
  "handleAddItem env clk s =
     (if new_name (newItem s) = [] \<or> new_quantity (newItem s) \<le> 0 then s
      else
        let parsedPrice = parseCurrency env (new_unitPrice (newItem s));
            s' =
              (if isOnline s then
                 (let doc = newDoc (newItem s) parsedPrice (toISOString clk 0) (toISOString clk 1) in
                  case addDoc env (remote s) doc of
                    (Some docRef, r) \<Rightarrow>
                      saveToStorage
                        (items s @ [newItemData docRef (newItem s) parsedPrice
                                      (toISOString clk 2) (toISOString clk 3)])
                        (logCall (AddDoc doc) r s)
                  | (None, r) \<Rightarrow>
                      addLocally
                        (newItemData (''local-'' @ dateNow clk) (newItem s) parsedPrice
                           (toISOString clk 2) (toISOString clk 3))
                        (items s) (logCall (AddDoc doc) r s))
               else
                 addLocally
                   (newItemData (''local-'' @ dateNow clk) (newItem s) parsedPrice
                      (toISOString clk 0) (toISOString clk 1))
                   (items s) s)
        in s'\<lparr>newItem := emptyForm, isAddingItem := False\<rparr>)"

definition handleUpdateItem ::
  "('n::{zero, one, times}, 'r) Env \<Rightarrow> Clock \<Rightarrow> string \<Rightarrow> ('n, string, 'r) App \<Rightarrow>
     ('n, string, 'r) App" where
  "handleUpdateItem env clk itemId s =
     (let parsedPrice = parseCurrency env (new_unitPrice (newItem s)) in
      case find (\<lambda>item. id' item = itemId) (items s) of
        None \<Rightarrow> s
      | Some itemToUpdate \<Rightarrow>
          (let newData =
                 itemToUpdate\<lparr>name := new_name (newItem s),
                   quantity := new_quantity (newItem s),
                   unitPrice := parsedPrice,
                   total' := new_quantity (newItem s) * parsedPrice,
                   updatedAt := toISOString clk 0\<rparr>;
               updatedItems = map (\<lambda>item. if id' item = itemId then newData else item) (items s);
               s1 = (saveToStorage updatedItems s)\<lparr>isEditingItem := None, newItem := emptyForm\<rparr>
           in
             if isOnline s \<and> \<not> includes_str itemId ''local-'' then
               (case updateDoc env (remote s1) (id' newData) (withoutId newData) of
                  (True, r) \<Rightarrow> logCall (UpdateDoc (id' newData) (withoutId newData)) r s1
                | (False, r) \<Rightarrow>
                    enqueue newData (logCall (UpdateDoc (id' newData) (withoutId newData)) r s1))
             else enqueue newData s1))"

definition handleRemoveItem ::
  "('n, 'r) Env \<Rightarrow> string \<Rightarrow> ('n, 'p, 'r) App \<Rightarrow> ('n, 'p, 'r) App" where
  "handleRemoveItem env i s =
     (let updatedItems = filter (\<lambda>item. id' item \<noteq> i) (items s);
          s1 = saveToStorage updatedItems s;
          s2 = (if isOnline s \<and> \<not> includes_str i ''local-'' then
                  (case deleteDoc env (remote s1) i of (ok, r) \<Rightarrow> logCall (DeleteDoc i) r s1)
                else s1)
      in s2\<lparr>pendingChanges := filter (\<lambda>item. id' item \<noteq> i) (pendingChanges s2)\<rparr>)"

definition toggleItemCompletion ::
  "('n, 'r) Env \<Rightarrow> Clock \<Rightarrow> string \<Rightarrow> ('n, 'p, 'r) App \<Rightarrow> ('n, 'p, 'r) App" where
  "toggleItemCompletion env clk i s =
     (case find (\<lambda>item. id' item = i) (items s) of
        None \<Rightarrow> s
      | Some itemToUpdate \<Rightarrow>
          (let updatedItem =
                 itemToUpdate\<lparr>completed := \<not> completed itemToUpdate,
                   updatedAt := toISOString clk 0\<rparr>;
               updatedItems = map (\<lambda>item. if id' item = i then updatedItem else item) (items s);
               s1 = saveToStorage updatedItems s
           in
             if isOnline s \<and> \<not> includes_str i ''local-'' then
               (case updateDoc env (remote s1) (id' updatedItem) (withoutId updatedItem) of
                  (True, r) \<Rightarrow> logCall (UpdateDoc (id' updatedItem) (withoutId updatedItem)) r s1
                | (False, r) \<Rightarrow>
                    enqueue updatedItem
                      (logCall (UpdateDoc (id' updatedItem) (withoutId updatedItem)) r s1))
             else enqueue updatedItem s1))"

definition calculateTotal :: "('n::{zero, plus}, 'p, 'r) App \<Rightarrow> 'n" where
  "calculateTotal s =
     foldl (\<lambda>sum item. sum + total' item) 0 (filter (\<lambda>item. \<not> completed item) (items s))"

text \<open>
  The connectivity events of \<^verbatim>\<open>useOnlineStatus\<close> with the effect that depends
  on \<^verbatim>\<open>isOnline\<close>: it runs when the flag has changed, and replays the queue
  when the component is online and the queue is not empty.
\<close>

definition handleOnline ::
  "('n, 'r) Env \<Rightarrow> ('n, 'p, 'r) App \<Rightarrow> ('n, 'p, 'r) App" where
  "handleOnline env s =
     (if isOnline s then s
      else
        let s1 = s\<lparr>isOnline := True\<rparr> in
        if pendingChanges s1 \<noteq> [] then syncPendingChanges env s1 else s1)"

definition handleOffline :: "('n, 'p, 'r) App \<Rightarrow> ('n, 'p, 'r) App" where
  "handleOffline s = s\<lparr>isOnline := False\<rparr>"

text \<open>The state of a freshly mounted component, before \<^verbatim>\<open>loadItems\<close> has run.\<close>

definition initialApp ::
  "bool \<Rightarrow> 'n ShoppingItem list option \<Rightarrow> 'r \<Rightarrow> ('n::one, string, 'r) App" where
  "initialApp online stored r =
     \<lparr>items = [], isAddingItem = False, isEditingItem = None, newItem = emptyForm,
      pendingChanges = [], isOnline = online, localStorage = stored, remote = r, calls = []\<rparr>"

section \<open>The component of \<^verbatim>\<open>part_001\<close>\<close>

text \<open>
  The form of \<^verbatim>\<open>part_001\<close> holds the price as a number.  Its handlers write
  \<^verbatim>\<open>setPendingChanges([...pendingChanges, item])\<close> and
  \<^verbatim>\<open>localStorage.setItem(..., items.map(...))\<close> with the \<^verbatim>\<open>pendingChanges\<close> and
  \<^verbatim>\<open>items\<close> they closed over: the values of the state at the call.
\<close>

definition emptyForm_p1 :: "('n::{zero, one}, 'n) NewItemState" where
  "emptyForm_p1 = \<lparr>new_name = [], new_quantity = 1, new_unitPrice = 0\<rparr>"

definition loadItems_p1 ::
  "('n, 'r) Env \<Rightarrow> ('n, 'p, 'r) App \<Rightarrow> ('n, 'p, 'r) App" where
  "loadItems_p1 env s =
     (let localData = parseStored (localStorage s) in
      if isOnline s then
        (case getDocs env (remote s) of
           (Some docs, r) \<Rightarrow>
             (let fetchedItems = map withId docs; s1 = logCall GetDocs r s in
              if fetchedItems \<noteq> [] then
                s1\<lparr>localStorage := Some fetchedItems, items := fetchedItems\<rparr>
              else if localData \<noteq> [] then s1\<lparr>items := localData\<rparr>
              else s1)
         | (None, r) \<Rightarrow> logCall GetDocs r s)
      else if localData \<noteq> [] then s\<lparr>items := localData\<rparr>
      else s)"

text \<open>\<open>its\<close> is the \<^verbatim>\<open>items\<close> the caller closed over.\<close>

definition updateLocalItemId_p1 ::
  "'n ShoppingItem list \<Rightarrow> string \<Rightarrow> string \<Rightarrow> ('n, 'p, 'r) App \<Rightarrow> ('n, 'p, 'r) App" where
  "updateLocalItemId_p1 its localId firebaseId s =
     s\<lparr>items := map (rekey localId firebaseId) (items s),
       localStorage := Some (map (rekey localId firebaseId) its)\<rparr>"

text \<open>
  The loop of \<^verbatim>\<open>syncPendingChanges\<close>: a rejected call leaves the loop for the
  \<^verbatim>\<open>catch\<close> block (\<open>False\<close>).
\<close>

fun syncLoop_p1 ::
  "('n, 'r) Env \<Rightarrow> 'n ShoppingItem list \<Rightarrow> 'n ShoppingItem list \<Rightarrow> ('n, 'p, 'r) App \<Rightarrow>
     ('n, 'p, 'r) App \<times> bool" where
  "syncLoop_p1 env its [] s = (s, True)"
| "syncLoop_p1 env its (item # rest) s =
     (if \<not> includes_str (id' item) ''local-'' then
        (case updateDoc env (remote s) (id' item) (withoutId item) of
           (True, r) \<Rightarrow>
             syncLoop_p1 env its rest (logCall (UpdateDoc (id' item) (withoutId item)) r s)
         | (False, r) \<Rightarrow> (logCall (UpdateDoc (id' item) (withoutId item)) r s, False))
      else
        (case addDoc env (remote s) (withoutId item) of
           (Some docRef, r) \<Rightarrow>
             syncLoop_p1 env its rest
               (updateLocalItemId_p1 its (id' item) docRef (logCall (AddDoc (withoutId item)) r s))
         | (None, r) \<Rightarrow> (logCall (AddDoc (withoutId item)) r s, False)))"

definition syncPendingChanges_p1 ::
  "('n, 'r) Env \<Rightarrow> ('n, 'p, 'r) App \<Rightarrow> ('n, 'p, 'r) App" where
  "syncPendingChanges_p1 env s =
     (case syncLoop_p1 env (items s) (pendingChanges s) s of
        (s1, True) \<Rightarrow> loadItems_p1 env (s1\<lparr>pendingChanges := []\<rparr>)
      | (s1, False) \<Rightarrow> s1)"

definition handleAddItem_p1 ::
  "('n::{zero, one, times}, 'r) Env \<Rightarrow> Clock \<Rightarrow> ('n, 'n, 'r) App \<Rightarrow> ('n, 'n, 'r) App" where
  "handleAddItem_p1 env clk s =
     (if new_name (newItem s) = [] then s
      else
        let item =
              newItemData (if isOnline s then randomUUID clk else ''local-'' @ dateNow clk)
                (newItem s) (new_unitPrice (newItem s)) (toISOString clk 0) (toISOString clk 1);
            s1 = saveToStorage (items s @ [item]) s;
            s2 =
              (if isOnline s then
                 (case addDoc env (remote s1) (withoutId item) of
                    (Some docRef, r) \<Rightarrow>
                      updateLocalItemId_p1 (items s) (id' item) docRef
                        (logCall (AddDoc (withoutId item)) r s1)
                  | (None, r) \<Rightarrow>
                      (logCall (AddDoc (withoutId item)) r s1)
                        \<lparr>pendingChanges := pendingChanges s @ [item]\<rparr>)
               else s1\<lparr>pendingChanges := pendingChanges s @ [item]\<rparr>)
        in s2\<lparr>newItem := emptyForm_p1, isAddingItem := False\<rparr>)"

definition handleUpdateItem_p1 ::
  "('n, 'r) Env \<Rightarrow> 'n ShoppingItem \<Rightarrow> ('n, 'p, 'r) App \<Rightarrow> ('n, 'p, 'r) App" where
  "handleUpdateItem_p1 env updatedItem s =
     (let updatedItems =
            map (\<lambda>item. if id' item = id' updatedItem then updatedItem else item) (items s);
          s1 = saveToStorage updatedItems s;
          s2 =
            (if isOnline s then
               (case updateDoc env (remote s1) (id' updatedItem) (withoutId updatedItem) of
                  (True, r) \<Rightarrow> logCall (UpdateDoc (id' updatedItem) (withoutId updatedItem)) r s1
                | (False, r) \<Rightarrow>
                    (logCall (UpdateDoc (id' updatedItem) (withoutId updatedItem)) r s1)
                      \<lparr>pendingChanges := pendingChanges s @ [updatedItem]\<rparr>)
             else s1\<lparr>pendingChanges := pendingChanges s @ [updatedItem]\<rparr>)
      in s2\<lparr>isEditingItem := None\<rparr>)"

text \<open>
  The \<^verbatim>\<open>onClick\<close> of the edit form's save button, which builds the item that
  \<^verbatim>\<open>handleUpdateItem\<close> receives.
\<close>

definition onSaveClick_p1 ::
  "('n::times, 'r) Env \<Rightarrow> Clock \<Rightarrow> 'n ShoppingItem \<Rightarrow> ('n, 'n, 'r) App \<Rightarrow> ('n, 'n, 'r) App" where
  "onSaveClick_p1 env clk item s =
     handleUpdateItem_p1 env
       (item\<lparr>name := new_name (newItem s),
          quantity := new_quantity (newItem s),
          unitPrice := new_unitPrice (newItem s),
          total' := new_quantity (newItem s) * new_unitPrice (newItem s),
          updatedAt := toISOString clk 0\<rparr>) s"

definition handleRemoveItem_p1 ::
  "('n, 'r) Env \<Rightarrow> string \<Rightarrow> ('n, 'p, 'r) App \<Rightarrow> ('n, 'p, 'r) App" where
  "handleRemoveItem_p1 env i s =
     (let updatedItems = filter (\<lambda>item. id' item \<noteq> i) (items s);
          s1 = saveToStorage updatedItems s;
          s2 = (if isOnline s \<and> \<not> includes_str i ''local-'' then
                  (case deleteDoc env (remote s1) i of (ok, r) \<Rightarrow> logCall (DeleteDoc i) r s1)
                else s1)
      in s2\<lparr>pendingChanges := filter (\<lambda>item. id' item \<noteq> i) (pendingChanges s)\<rparr>)"

definition toggleItemCompletion_p1 ::
  "('n, 'r) Env \<Rightarrow> Clock \<Rightarrow> string \<Rightarrow> ('n, 'p, 'r) App \<Rightarrow> ('n, 'p, 'r) App" where
  "toggleItemCompletion_p1 env clk i s =
     (case find (\<lambda>item. id' item = i) (items s) of
        None \<Rightarrow> s
      | Some itemToUpdate \<Rightarrow>
          handleUpdateItem_p1 env
            (itemToUpdate\<lparr>completed := \<not> completed itemToUpdate,
               updatedAt := toISOString clk 0\<rparr>) s)"

definition calculateTotal_p1 :: "('n::{zero, plus}, 'p, 'r) App \<Rightarrow> 'n" where
  "calculateTotal_p1 s = foldl (\<lambda>sum item. sum + total' item) 0 (items s)"

text \<open>
  The effect of \<^verbatim>\<open>part_001\<close> that replays the queue depends on \<^verbatim>\<open>isOnline\<close>
  and on \<^verbatim>\<open>pendingChanges\<close>; \<open>handleOnline_p1\<close> is the connectivity event with
  the run of the effect that follows it.
\<close>

definition handleOnline_p1 ::
  "('n, 'r) Env \<Rightarrow> ('n, 'p, 'r) App \<Rightarrow> ('n, 'p, 'r) App" where
  "handleOnline_p1 env s =
     (if isOnline s then s
      else
        let s1 = s\<lparr>isOnline := True\<rparr> in
        if pendingChanges s1 \<noteq> [] then syncPendingChanges_p1 env s1 else s1)"

definition initialApp_p1 ::
  "bool \<Rightarrow> 'n ShoppingItem list option \<Rightarrow> 'r \<Rightarrow> ('n::{zero, one}, 'n, 'r) App" where
  "initialApp_p1 online stored r =
     \<lparr>items = [], isAddingItem = False, isEditingItem = None, newItem = emptyForm_p1,
      pendingChanges = [], isOnline = online, localStorage = stored, remote = r, calls = []\<rparr>"

section \<open>The replay seen from the remote store\<close>

text \<open>
  What the remote store answers to the operation that the loop of
  \<^verbatim>\<open>syncPendingChanges\<close> performs for one queued record: the document is
  updated, or created under a new key, or the call is rejected.
\<close>

datatype outcome = Rejected | Updated | Created string

definition replayOp :: "('n, 'r) Env \<Rightarrow> 'n ShoppingItem \<Rightarrow> 'r \<Rightarrow> outcome \<times> 'r" where
  "replayOp env item r =
     (if \<not> includes_str (id' item) ''local-'' then
        (case updateDoc env r (id' item) (withoutId item) of
           (ok, r1) \<Rightarrow> (if ok then Updated else Rejected, r1))
      else
        (case addDoc env r (withoutId item) of
           (None, r1) \<Rightarrow> (Rejected, r1)
         | (Some docRef, r1) \<Rightarrow> (Created docRef, r1)))"

text \<open>The outcomes of one pass over the queue, the remote store starting in \<open>r\<close>.\<close>

fun replayOutcomes ::
  "('n, 'r) Env \<Rightarrow> 'n ShoppingItem list \<Rightarrow> 'r \<Rightarrow> outcome list" where
  "replayOutcomes env [] r = []"
| "replayOutcomes env (item # rest) r =
     (case replayOp env item r of (oc, r1) \<Rightarrow> oc # replayOutcomes env rest r1)"

text \<open>The call that the pass issues for a queued record.\<close>

definition replayCall :: "'n ShoppingItem \<Rightarrow> 'n remote_call" where
  "replayCall item =
     (if \<not> includes_str (id' item) ''local-'' then UpdateDoc (id' item) (withoutId item)
      else AddDoc (withoutId item))"

text \<open>
  What the pass does to one item of a collection: each created record re-keys
  the items that carry its id, in the order of the queue.
\<close>

definition rekeyBy :: "'n ShoppingItem \<Rightarrow> outcome \<Rightarrow> 'n ShoppingItem \<Rightarrow> 'n ShoppingItem" where
  "rekeyBy item oc p = (case oc of Created docRef \<Rightarrow> rekey (id' item) docRef p | _ \<Rightarrow> p)"

fun rekeyAll :: "('n ShoppingItem \<times> outcome) list \<Rightarrow> 'n ShoppingItem \<Rightarrow> 'n ShoppingItem" where
  "rekeyAll [] p = p"
| "rekeyAll ((item, oc) # rest) p = rekeyAll rest (rekeyBy item oc p)"

text \<open>The records whose operation was rejected, in the order of the queue.\<close>

definition failedOf :: "('n ShoppingItem \<times> outcome) list \<Rightarrow> 'n ShoppingItem list" where
  "failedOf zs = map fst (filter (\<lambda>z. snd z = Rejected) zs)"

definition isCreated :: "outcome \<Rightarrow> bool" where
  "isCreated oc = (case oc of Created _ \<Rightarrow> True | _ \<Rightarrow> False)"

text \<open>The key of a created document is not in the local id space.\<close>

definition remoteKey :: "outcome \<Rightarrow> bool" where
  "remoteKey oc = (case oc of Created docRef \<Rightarrow> \<not> includes_str docRef ''local-'' | _ \<Rightarrow> True)"

definition wellKeyed :: "('n ShoppingItem \<times> outcome) list \<Rightarrow> bool" where
  "wellKeyed zs =
     (\<forall>x k. (x, Created k) \<in> set zs \<longrightarrow>
        includes_str (id' x) ''local-'' \<and> \<not> includes_str k ''local-'')"

section \<open>Properties of states and calls\<close>

text \<open>Every item's total is the product of its quantity and its unit price.\<close>

definition totalsOk :: "('n::times, 'p, 'r) App \<Rightarrow> bool" where
  "totalsOk s = list_all (\<lambda>item. total' item = quantity item * unitPrice item) (items s)"

text \<open>
  The local snapshot, as \<^verbatim>\<open>loadItems\<close> reads it, is the in-memory collection.
\<close>

definition synced :: "('n, 'p, 'r) App \<Rightarrow> bool" where
  "synced s = (parseStored (localStorage s) = items s)"

text \<open>An update or a delete of the remote store whose key is in the local id space.\<close>

definition targetsLocal :: "'n remote_call \<Rightarrow> bool" where
  "targetsLocal c =
     (case c of
        UpdateDoc i _ \<Rightarrow> includes_str i ''local-''
      | DeleteDoc i \<Rightarrow> includes_str i ''local-''
      | _ \<Rightarrow> False)"

section \<open>Example environments and states\<close>

text \<open>
  A remote store whose state is the list of the answers it will give: \<open>None\<close>
  rejects the call, \<open>Some k\<close> accepts it (\<open>k\<close> is the key of the document when
  the call creates one), and a store with no answer left rejects.  Its listing
  is empty.
\<close>

definition demoEnv :: "(int, string option list) Env" where
  "demoEnv =
     \<lparr>addDoc = (\<lambda>r d. case r of [] \<Rightarrow> (None, []) | a # r1 \<Rightarrow> (a, r1)),
      updateDoc = (\<lambda>r i d. case r of [] \<Rightarrow> (False, []) | a # r1 \<Rightarrow> (a \<noteq> None, r1)),
      deleteDoc = (\<lambda>r i. case r of [] \<Rightarrow> (False, []) | a # r1 \<Rightarrow> (a \<noteq> None, r1)),
      getDocs = (\<lambda>r. case r of [] \<Rightarrow> (None, []) | a # r1 \<Rightarrow> (map_option (\<lambda>_. []) a, r1)),
      parseFloat = (\<lambda>v. if v = ''3'' then Some 3 else None)\<rparr>"

definition demoClock :: "string \<Rightarrow> Clock" where
  "demoClock ms = \<lparr>dateNow = ms, toISOString = (\<lambda>k. ''t1''), randomUUID = ''uuid''\<rparr>"

definition demoItem :: "string \<Rightarrow> string \<Rightarrow> bool \<Rightarrow> int ShoppingItem" where
  "demoItem i n c =
     \<lparr>name = n, quantity = 2, unitPrice = 3, total' = 6, completed = c,
      createdAt = ''t0'', updatedAt = ''t0'', id' = i\<rparr>"

definition demoApp ::
  "('n, 'p) NewItemState \<Rightarrow> 'n ShoppingItem list \<Rightarrow> 'n ShoppingItem list \<Rightarrow> bool \<Rightarrow> 'r \<Rightarrow>
     ('n, 'p, 'r) App" where
  "demoApp form its queue online r =
     \<lparr>items = its, isAddingItem = False, isEditingItem = None, newItem = form,
      pendingChanges = queue, isOnline = online, localStorage = Some its, remote = r, calls = []\<rparr>"

text \<open>
  Two records queued, the store accepting the first call and rejecting the
  second: in \<open>mixedQueue\<close> the first record has a remote id, in \<open>localQueue\<close>
  both have local ids.
\<close>

definition mixedQueue :: "(int, string, string option list) App" where
  "mixedQueue =
     demoApp emptyForm [demoItem ''a1'' ''Milk'' False, demoItem ''local-2'' ''Eggs'' False]
       [demoItem ''a1'' ''Milk'' False, demoItem ''local-2'' ''Eggs'' False] True [Some [], None]"

definition localQueue :: "(int, string, string option list) App" where
  "localQueue =
     demoApp emptyForm [demoItem ''local-1'' ''Milk'' False, demoItem ''local-2'' ''Eggs'' False]
       [demoItem ''local-1'' ''Milk'' False, demoItem ''local-2'' ''Eggs'' False] True
       [Some ''R1'', None]"

text \<open>
  An item is added offline and its completion toggled offline, so that two
  records with the same local id are queued; the component then comes online,
  and the store accepts the first creation and rejects the second.
\<close>

definition twiceQueued :: "(int, string, string option list) App" where
  "twiceQueued =
     handleOnline demoEnv
       (toggleItemCompletion demoEnv (demoClock ''18'') ''local-17''
          (handleAddItem demoEnv (demoClock ''17'')
             ((initialApp False None [Some ''R1'', None])
                \<lparr>newItem := \<lparr>new_name = ''Milk'', new_quantity = 2, new_unitPrice = ''3''\<rparr>\<rparr>)))"

text \<open>
  A component that starts online with three items in the local snapshot, the
  remote listing succeeding with no document.
\<close>

definition threeLocal :: "(int, string, string option list) App" where
  "threeLocal =
     initialApp True
       (Some [demoItem ''a1'' ''Milk'' False, demoItem ''local-2'' ''Eggs'' False,
              demoItem ''a3'' ''Tea'' True])
       [Some []]"

text \<open>
  A collection of \<^verbatim>\<open>part_001\<close> with one completed and one pending item.
\<close>

definition oneCompleted :: "(int, int, string option list) App" where
  "oneCompleted =
     demoApp emptyForm_p1 [demoItem ''a1'' ''Milk'' True, demoItem ''a2'' ''Eggs'' False] [] True []"

text \<open>
  A collection of two items, its snapshot equal to it, and a filled form.
\<close>

definition stocked :: "(int, string, string option list) App" where
  "stocked =
     demoApp \<lparr>new_name = ''Tea'', new_quantity = 4, new_unitPrice = ''3''\<rparr>
       [demoItem ''a1'' ''Milk'' False, demoItem ''local-2'' ''Eggs'' True] [] True [Some ''R9'']"

text \<open>
  In \<^verbatim>\<open>part_001\<close>: an item is added offline, the component comes online, and
  the store rejects the creation that the replay attempts.
\<close>

definition localWhileOnline_p1 :: "(int, int, string option list) App" where
  "localWhileOnline_p1 =
     handleOnline_p1 demoEnv
       (handleAddItem_p1 demoEnv (demoClock ''17'')
          ((initialApp_p1 False None [None])
             \<lparr>newItem := \<lparr>new_name = ''Milk'', new_quantity = 2, new_unitPrice = 3\<rparr>\<rparr>))"

text \<open>
  A form of \<^verbatim>\<open>part_001\<close> with a name and the quantity \<open>0\<close>.
\<close>

definition zeroQuantity_p1 :: "(int, int, string option list) App" where
  "zeroQuantity_p1 =
     (initialApp_p1 False None [])
       \<lparr>newItem := \<lparr>new_name = ''Milk'', new_quantity = 0, new_unitPrice = 3\<rparr>\<rparr>"

text \<open>
  An item being edited in \<^verbatim>\<open>part_000\<close>, the form holding an empty name and the
  quantity \<open>0\<close>.
\<close>

definition emptyNameEdit :: "(int, string, string option list) App" where
  "emptyNameEdit =
     demoApp \<lparr>new_name = [], new_quantity = 0, new_unitPrice = ''3''\<rparr>
       [demoItem ''a1'' ''Milk'' False] [] False []"

text \<open>
  An offline component with an empty collection and a filled form.
\<close>

definition offlineForm :: "(int, string, string option list) App" where
  "offlineForm =
     (initialApp False None [Some ''R1''])
       \<lparr>newItem := \<lparr>new_name = ''Milk'', new_quantity = 2, new_unitPrice = ''3''\<rparr>\<rparr>"

section \<open>Basic facts\<close>

lemmas demo_defs = demoEnv_def demoClock_def demoItem_def demoApp_def

lemma logCall_simps [simp]:
  "items (logCall c r s) = items s"
  "pendingChanges (logCall c r s) = pendingChanges s"
  "localStorage (logCall c r s) = localStorage s"
  "isOnline (logCall c r s) = isOnline s"
  "newItem (logCall c r s) = newItem s"
  "remote (logCall c r s) = r"
  "calls (logCall c r s) = calls s @ [c]"
  by (simp_all add: logCall_def)

lemma enqueue_simps [simp]:
  "items (enqueue x s) = items s"
  "pendingChanges (enqueue x s) = pendingChanges s @ [x]"
  "localStorage (enqueue x s) = localStorage s"
  "isOnline (enqueue x s) = isOnline s"
  "newItem (enqueue x s) = newItem s"
  "remote (enqueue x s) = remote s"
  "calls (enqueue x s) = calls s"
  by (simp_all add: enqueue_def)

lemma saveToStorage_simps [simp]:
  "items (saveToStorage xs s) = xs"
  "pendingChanges (saveToStorage xs s) = pendingChanges s"
  "localStorage (saveToStorage xs s) = Some xs"
  "isOnline (saveToStorage xs s) = isOnline s"
  "newItem (saveToStorage xs s) = newItem s"
  "remote (saveToStorage xs s) = remote s"
  "calls (saveToStorage xs s) = calls s"
  by (simp_all add: saveToStorage_def)

lemma parseStored_simps [simp]: "parseStored None = []" "parseStored (Some xs) = xs"
  by (simp_all add: parseStored_def)

lemma id_rekey: "id' (rekey a b p) = (if id' p = a then b else id' p)"
  by (simp add: rekey_def)

lemma find_Some_D: "find P xs = Some x \<Longrightarrow> x \<in> set xs \<and> P x"
  by (induction xs) (auto split: if_splits)

section \<open>The replay pass of \<^verbatim>\<open>part_000\<close>\<close>

lemma rekeyBy_simps [simp]:
  "rekeyBy item Rejected = (\<lambda>p. p)"
  "rekeyBy item Updated = (\<lambda>p. p)"
  "rekeyBy item (Created k) = rekey (id' item) k"
  by (simp_all add: rekeyBy_def fun_eq_iff)

lemma isCreated_simps [simp]:
  "isCreated Rejected = False" "isCreated Updated = False" "isCreated (Created k) = True"
  by (simp_all add: isCreated_def)

lemma rekeyBy_not_created: "\<not> isCreated oc \<Longrightarrow> rekeyBy item oc p = p"
  by (cases oc) (simp_all add: isCreated_def)

lemma rekeyAll_none_created:
  "\<not> list_ex isCreated (map snd zs) \<Longrightarrow> rekeyAll zs p = p"
  by (induction zs arbitrary: p) (auto simp: rekeyBy_not_created)

lemma rekeyAll_fun:
  "rekeyAll [] = (\<lambda>p. p)"
  "rekeyAll ((item, oc) # rest) = (\<lambda>p. rekeyAll rest (rekeyBy item oc p))"
  by (simp_all add: fun_eq_iff)

lemma length_replayOutcomes [simp]: "length (replayOutcomes env recs r) = length recs"
  by (induction recs arbitrary: r) (auto split: prod.splits)

text \<open>One turn of the loop, in terms of the outcome of its remote operation.\<close>

lemma syncItem_char:
  assumes "replayOp env item (remote s) = (oc, r)"
  shows "syncItem env item s =
           ((logCall (replayCall item) r s)
              \<lparr>items := map (rekeyBy item oc) (items s),
                localStorage :=
                  (if isCreated oc then Some (map (rekeyBy item oc) (parseStored (localStorage s)))
                   else localStorage s)\<rparr>,
            oc \<noteq> Rejected)"
  using assms
  by (auto simp: syncItem_def replayOp_def replayCall_def
      parseStored_def logCall_def Let_def split: prod.splits option.splits if_splits)

lemma syncLoop_calls:
  "calls (fst (syncLoop env recs s f)) = calls s @ map replayCall recs"
proof (induction recs arbitrary: s f)
  case Nil
  show ?case by simp
next
  case (Cons item rest)
  obtain oc r where op: "replayOp env item (remote s) = (oc, r)"
    by (cases "replayOp env item (remote s)")
  show ?case
    by (simp add: syncItem_char [OF op] Cons.IH)
qed

lemma syncLoop_failed:
  "snd (syncLoop env recs s f) = f @ failedOf (zip recs (replayOutcomes env recs (remote s)))"
proof (induction recs arbitrary: s f)
  case Nil
  show ?case by (simp add: failedOf_def)
next
  case (Cons item rest)
  obtain oc r where op: "replayOp env item (remote s) = (oc, r)"
    by (cases "replayOp env item (remote s)")
  show ?case
    by (simp add: syncItem_char [OF op] Cons.IH op failedOf_def)
qed

lemma syncLoop_items:
  "items (fst (syncLoop env recs s f)) =
     map (rekeyAll (zip recs (replayOutcomes env recs (remote s)))) (items s)"
proof (induction recs arbitrary: s f)
  case Nil
  show ?case by (simp add: rekeyAll_fun)
next
  case (Cons item rest)
  obtain oc r where op: "replayOp env item (remote s) = (oc, r)"
    by (cases "replayOp env item (remote s)")
  show ?case
    by (simp add: syncItem_char [OF op] Cons.IH op o_def)
qed

lemma syncLoop_storage:
  "localStorage (fst (syncLoop env recs s f)) =
     (if list_ex isCreated (replayOutcomes env recs (remote s))
      then Some (map (rekeyAll (zip recs (replayOutcomes env recs (remote s))))
                  (parseStored (localStorage s)))
      else localStorage s)"
proof (induction recs arbitrary: s f)
  case Nil
  show ?case by simp
next
  case (Cons item rest)
  obtain oc r where op: "replayOp env item (remote s) = (oc, r)"
    by (cases "replayOp env item (remote s)")
  have len: "map snd (zip rest (replayOutcomes env rest r)) = replayOutcomes env rest r"
    by (simp add: map_snd_zip)
  show ?case
    using rekeyAll_none_created [of "zip rest (replayOutcomes env rest r)"]
    by (auto simp: syncItem_char [OF op] Cons.IH op o_def len rekeyBy_not_created)
qed

text \<open>The whole pass.\<close>

lemma syncPendingChanges_char:
  "pendingChanges (syncPendingChanges env s) =
     failedOf (zip (pendingChanges s) (replayOutcomes env (pendingChanges s) (remote s)))"
  "items (syncPendingChanges env s) =
     map (rekeyAll (zip (pendingChanges s) (replayOutcomes env (pendingChanges s) (remote s))))
       (items s)"
  "localStorage (syncPendingChanges env s) =
     (if list_ex isCreated (replayOutcomes env (pendingChanges s) (remote s))
      then Some (map (rekeyAll (zip (pendingChanges s)
                    (replayOutcomes env (pendingChanges s) (remote s))))
                  (parseStored (localStorage s)))
      else localStorage s)"
  "calls (syncPendingChanges env s) = calls s @ map replayCall (pendingChanges s)"
proof -
  obtain s1 f where l: "syncLoop env (pendingChanges s) s [] = (s1, f)"
    by (cases "syncLoop env (pendingChanges s) s []")
  have f: "f = failedOf (zip (pendingChanges s) (replayOutcomes env (pendingChanges s) (remote s)))"
    using syncLoop_failed [of env "pendingChanges s" s "[]"] l by simp
  have i: "items s1 = map (rekeyAll (zip (pendingChanges s)
             (replayOutcomes env (pendingChanges s) (remote s)))) (items s)"
    using syncLoop_items [of env "pendingChanges s" s "[]"] l by simp
  have st: "localStorage s1 =
     (if list_ex isCreated (replayOutcomes env (pendingChanges s) (remote s))
      then Some (map (rekeyAll (zip (pendingChanges s)
                    (replayOutcomes env (pendingChanges s) (remote s))))
                  (parseStored (localStorage s)))
      else localStorage s)"
    using syncLoop_storage [of env "pendingChanges s" s "[]"] l by simp
  have c: "calls s1 = calls s @ map replayCall (pendingChanges s)"
    using syncLoop_calls [of env "pendingChanges s" s "[]"] l by simp
  show "pendingChanges (syncPendingChanges env s) =
     failedOf (zip (pendingChanges s) (replayOutcomes env (pendingChanges s) (remote s)))"
    by (cases "pendingChanges s = []") (simp_all add: syncPendingChanges_def l f failedOf_def)
  show "items (syncPendingChanges env s) =
     map (rekeyAll (zip (pendingChanges s) (replayOutcomes env (pendingChanges s) (remote s))))
       (items s)"
    by (cases "pendingChanges s = []") (simp_all add: syncPendingChanges_def l i rekeyAll_fun)
  show "localStorage (syncPendingChanges env s) =
     (if list_ex isCreated (replayOutcomes env (pendingChanges s) (remote s))
      then Some (map (rekeyAll (zip (pendingChanges s)
                    (replayOutcomes env (pendingChanges s) (remote s))))
                  (parseStored (localStorage s)))
      else localStorage s)"
    by (cases "pendingChanges s = []") (simp_all add: syncPendingChanges_def l st)
  show "calls (syncPendingChanges env s) = calls s @ map replayCall (pendingChanges s)"
    by (cases "pendingChanges s = []") (simp_all add: syncPendingChanges_def l c)
qed

lemma replayOp_not_local:
  "\<not> includes_str (id' item) ''local-'' \<Longrightarrow> \<not> isCreated (fst (replayOp env item r))"
  by (simp add: replayOp_def split: prod.splits)

text \<open>
  C1 (as amended).  After a pass of \<^verbatim>\<open>syncPendingChanges\<close> of
  \<^verbatim>\<open>part_000\<close> the queue holds exactly the records whose remote operation was
  rejected, in their order: a record whose operation succeeded is dropped, one
  whose operation failed stays.  With two records queued, the first accepted
  and the second rejected, the queue afterwards holds the second record only;
  the in-memory collection is the old one with the items that carry the first
  record's id re-keyed when that record was created remotely, and both the
  collection and the local snapshot are unchanged when the first record has a
  remote id.
\<close>

theorem syncPendingChanges_keeps_failed:
  "pendingChanges (syncPendingChanges env s) =
     failedOf (zip (pendingChanges s) (replayOutcomes env (pendingChanges s) (remote s))) \<and>
   (pendingChanges s = [a, b] \<and> replayOutcomes env [a, b] (remote s) = [oa, Rejected] \<and>
    oa \<noteq> Rejected \<longrightarrow>
      pendingChanges (syncPendingChanges env s) = [b] \<and>
      items (syncPendingChanges env s) = map (rekeyBy a oa) (items s) \<and>
      (\<not> includes_str (id' a) ''local-'' \<longrightarrow>
         items (syncPendingChanges env s) = items s \<and>
         localStorage (syncPendingChanges env s) = localStorage s))"
proof (intro conjI impI)
  show "pendingChanges (syncPendingChanges env s) =
     failedOf (zip (pendingChanges s) (replayOutcomes env (pendingChanges s) (remote s)))"
    by (rule syncPendingChanges_char(1))
next
  assume h: "pendingChanges s = [a, b] \<and> replayOutcomes env [a, b] (remote s) = [oa, Rejected] \<and>
    oa \<noteq> Rejected"
  then show "pendingChanges (syncPendingChanges env s) = [b]"
    by (simp add: syncPendingChanges_char(1) failedOf_def)
  from h show "items (syncPendingChanges env s) = map (rekeyBy a oa) (items s)"
    by (simp add: syncPendingChanges_char(2) rekeyAll_fun)
  assume nl: "\<not> includes_str (id' a) ''local-''"
  have "\<not> isCreated oa"
    using replayOp_not_local [OF nl, of env "remote s"] h by (auto split: prod.splits)
  then have oa: "oa = Updated" using h by (cases oa) simp_all
  from h oa show "items (syncPendingChanges env s) = items s"
    by (simp add: syncPendingChanges_char(2) rekeyAll_fun)
  from h oa show "localStorage (syncPendingChanges env s) = localStorage s"
    by (simp add: syncPendingChanges_char(3))
qed

theorem syncPendingChanges_keeps_failed_witness:
  "pendingChanges mixedQueue = [demoItem ''a1'' ''Milk'' False, demoItem ''local-2'' ''Eggs'' False] \<and>
   replayOutcomes demoEnv [demoItem ''a1'' ''Milk'' False, demoItem ''local-2'' ''Eggs'' False]
     (remote mixedQueue) = [Updated, Rejected] \<and>
   pendingChanges (syncPendingChanges demoEnv mixedQueue) = [demoItem ''local-2'' ''Eggs'' False] \<and>
   items (syncPendingChanges demoEnv mixedQueue) = items mixedQueue \<and>
   localStorage (syncPendingChanges demoEnv mixedQueue) = localStorage mixedQueue"
  using syncPendingChanges_keeps_failed [of demoEnv mixedQueue
      "demoItem ''a1'' ''Milk'' False" "demoItem ''local-2'' ''Eggs'' False" Updated]
  by (simp add: mixedQueue_def demo_defs replayOp_def failedOf_def rekeyAll_fun)

text \<open>
  The claim as it is stated fails where the first record has a local id: its
  creation re-keys the item in memory, so the collection is not unchanged.
\<close>

theorem replay_rekeys_first_counterexample:
  "pendingChanges localQueue = [demoItem ''local-1'' ''Milk'' False, demoItem ''local-2'' ''Eggs'' False] \<and>
   replayOutcomes demoEnv (pendingChanges localQueue) (remote localQueue) = [Created ''R1'', Rejected] \<and>
   pendingChanges (syncPendingChanges demoEnv localQueue) = [demoItem ''local-2'' ''Eggs'' False] \<and>
   items localQueue = [demoItem ''local-1'' ''Milk'' False, demoItem ''local-2'' ''Eggs'' False] \<and>
   items (syncPendingChanges demoEnv localQueue) =
     [demoItem ''R1'' ''Milk'' False, demoItem ''local-2'' ''Eggs'' False] \<and>
   items (syncPendingChanges demoEnv localQueue) \<noteq> items localQueue"
  by (simp add: localQueue_def demo_defs syncPendingChanges_def syncItem_def logCall_def
      rekey_def replayOp_def Let_def)

text \<open>Where the keys go: facts about \<open>rekeyAll\<close>.\<close>

lemma created_is_local:
  "(x, Created k) \<in> set (zip recs (replayOutcomes env recs r)) \<Longrightarrow> includes_str (id' x) ''local-''"
proof (induction recs arbitrary: r)
  case Nil
  then show ?case by simp
next
  case (Cons item rest)
  obtain oc r1 where op: "replayOp env item r = (oc, r1)" by (cases "replayOp env item r")
  from Cons.prems op
  consider "x = item" "oc = Created k" | "(x, Created k) \<in> set (zip rest (replayOutcomes env rest r1))"
    by auto
  then show ?case
  proof cases
    case 1
    then show ?thesis using replayOp_not_local [of item env r] op by auto
  next
    case 2
    then show ?thesis by (rule Cons.IH)
  qed
qed

lemma wellKeyed_Cons: "wellKeyed (z # zs) \<Longrightarrow> wellKeyed zs"
  by (auto simp: wellKeyed_def)

lemma rekeyAll_remote_id:
  "wellKeyed zs \<Longrightarrow> \<not> includes_str (id' p) ''local-'' \<Longrightarrow> rekeyAll zs p = p"
proof (induction zs arbitrary: p)
  case Nil
  show ?case by simp
next
  case (Cons z zs)
  obtain x oc where z: "z = (x, oc)" by (cases z)
  have "rekeyBy x oc p = p"
  proof (cases oc)
    case (Created k)
    then have "includes_str (id' x) ''local-''" using Cons.prems(1) z by (auto simp: wellKeyed_def)
    then have "id' p \<noteq> id' x" using Cons.prems(2) by auto
    then show ?thesis using Created by (simp add: rekey_def)
  qed simp_all
  then show ?case using Cons.IH [of p] Cons.prems wellKeyed_Cons [of z zs] z by simp
qed

lemma rekeyAll_keeps_away:
  "wellKeyed zs \<Longrightarrow> includes_str i ''local-'' \<Longrightarrow> id' p \<noteq> i \<Longrightarrow> id' (rekeyAll zs p) \<noteq> i"
proof (induction zs arbitrary: p)
  case Nil
  then show ?case by simp
next
  case (Cons z zs)
  obtain x oc where z: "z = (x, oc)" by (cases z)
  have "id' (rekeyBy x oc p) \<noteq> i"
  proof (cases oc)
    case (Created k)
    then have "\<not> includes_str k ''local-''" using Cons.prems(1) z by (auto simp: wellKeyed_def)
    then have "k \<noteq> i" using Cons.prems(2) by auto
    then show ?thesis using Created Cons.prems(3) by (simp add: id_rekey)
  qed (simp_all add: Cons.prems)
  then show ?case using Cons.IH [of "rekeyBy x oc p"] Cons.prems wellKeyed_Cons [of z zs] z by simp
qed

lemma rekeyAll_created:
  "wellKeyed zs \<Longrightarrow> (item, Created k) \<in> set zs \<Longrightarrow> id' (rekeyAll zs p) \<noteq> id' item"
proof (induction zs arbitrary: p)
  case Nil
  then show ?case by simp
next
  case (Cons z zs)
  obtain x oc where z: "z = (x, oc)" by (cases z)
  have wf: "wellKeyed zs" using Cons.prems(1) by (rule wellKeyed_Cons)
  have loc: "includes_str (id' item) ''local-''"
    using Cons.prems by (auto simp: wellKeyed_def)
  show ?case
  proof (cases "(item, Created k) \<in> set zs")
    case True
    then show ?thesis using Cons.IH [OF wf True] z by simp
  next
    case False
    then have zz: "x = item" "oc = Created k" using Cons.prems(2) z by auto
    have rem: "\<not> includes_str k ''local-''" using Cons.prems(1) z zz by (auto simp: wellKeyed_def)
    have "id' (rekeyBy x oc p) \<noteq> id' item"
      using zz rem loc by (auto simp: id_rekey)
    then show ?thesis using rekeyAll_keeps_away [OF wf loc] z by simp
  qed
qed

lemma rekeyAll_takes_key:
  "wellKeyed zs \<Longrightarrow> (item, Created k0) \<in> set zs \<Longrightarrow> id' p = id' item \<Longrightarrow>
   \<exists>x k. (x, Created k) \<in> set zs \<and> id' x = id' item \<and> rekeyAll zs p = p\<lparr>id' := k\<rparr>"
proof (induction zs arbitrary: p)
  case Nil
  then show ?case by simp
next
  case (Cons z zs)
  obtain x oc where z: "z = (x, oc)" by (cases z)
  have wf: "wellKeyed zs" using Cons.prems(1) by (rule wellKeyed_Cons)
  show ?case
  proof (cases "\<exists>k. oc = Created k \<and> id' x = id' item")
    case True
    then obtain k where k: "oc = Created k" "id' x = id' item" by blast
    have rem: "\<not> includes_str k ''local-''" using Cons.prems(1) z k by (auto simp: wellKeyed_def)
    have "rekeyBy x oc p = p\<lparr>id' := k\<rparr>" using k Cons.prems(3) by (simp add: rekey_def)
    moreover have "rekeyAll zs (p\<lparr>id' := k\<rparr>) = p\<lparr>id' := k\<rparr>"
      using rekeyAll_remote_id [OF wf, of "p\<lparr>id' := k\<rparr>"] rem by simp
    ultimately have "rekeyAll (z # zs) p = p\<lparr>id' := k\<rparr>" using z by simp
    then show ?thesis using k z by auto
  next
    case False
    then have same: "rekeyBy x oc p = p"
      using Cons.prems(3) by (cases oc) (auto simp: rekey_def)
    from False have "(item, Created k0) \<in> set zs" using Cons.prems(2) z by auto
    from Cons.IH [OF wf this Cons.prems(3)] obtain x' k where
      "(x', Created k) \<in> set zs" "id' x' = id' item" "rekeyAll zs p = p\<lparr>id' := k\<rparr>" by blast
    then show ?thesis using same z by auto
  qed
qed

lemma wellKeyed_replay:
  assumes "list_all remoteKey (replayOutcomes env recs r)"
  shows "wellKeyed (zip recs (replayOutcomes env recs r))"
  unfolding wellKeyed_def
proof (intro allI impI)
  fix x k
  assume m: "(x, Created k) \<in> set (zip recs (replayOutcomes env recs r))"
  then have "Created k \<in> set (replayOutcomes env recs r)" by (rule set_zip_rightD)
  then have "remoteKey (Created k)" using assms by (simp add: list_all_iff)
  then show "includes_str (id' x) ''local-'' \<and> \<not> includes_str k ''local-''"
    using created_is_local [OF m] by (simp add: remoteKey_def)
qed

lemma failedOf_subset: "set (failedOf zs) \<subseteq> fst ` set zs"
  by (auto simp: failedOf_def)

text \<open>
  C2 (as amended).  Let a queued record be created remotely during a pass of
  \<^verbatim>\<open>syncPendingChanges\<close> of \<^verbatim>\<open>part_000\<close>, and let the remote store hand
  out no key of the local id space during the pass.  Then after the pass no
  item of the in-memory collection and none of the local snapshot carries
  the record's local id; both collections keep their lengths, and every item
  that carried the local id is the same item under a key that a creation for
  that local id returned.  The records that stay queued are records of the old
  queue, unchanged: a queued record is never re-keyed.
\<close>

theorem syncPendingChanges_rekeys_collections:
  assumes keys: "list_all remoteKey (replayOutcomes env (pendingChanges s) (remote s))"
    and created: "(item, Created k) \<in>
                    set (zip (pendingChanges s) (replayOutcomes env (pendingChanges s) (remote s)))"
  shows "id' item \<notin> id' ` set (items (syncPendingChanges env s)) \<and>
         id' item \<notin> id' ` set (parseStored (localStorage (syncPendingChanges env s))) \<and>
         length (items (syncPendingChanges env s)) = length (items s) \<and>
         length (parseStored (localStorage (syncPendingChanges env s))) =
           length (parseStored (localStorage s)) \<and>
         (\<forall>j < length (items s). id' (items s ! j) = id' item \<longrightarrow>
            (\<exists>x k'. (x, Created k') \<in>
                 set (zip (pendingChanges s) (replayOutcomes env (pendingChanges s) (remote s))) \<and>
               id' x = id' item \<and>
               items (syncPendingChanges env s) ! j = (items s ! j)\<lparr>id' := k'\<rparr>)) \<and>
         (\<forall>j < length (parseStored (localStorage s)).
            id' (parseStored (localStorage s) ! j) = id' item \<longrightarrow>
            (\<exists>x k'. (x, Created k') \<in>
                 set (zip (pendingChanges s) (replayOutcomes env (pendingChanges s) (remote s))) \<and>
               id' x = id' item \<and>
               parseStored (localStorage (syncPendingChanges env s)) ! j =
                 (parseStored (localStorage s) ! j)\<lparr>id' := k'\<rparr>)) \<and>
         set (pendingChanges (syncPendingChanges env s)) \<subseteq> set (pendingChanges s)"
proof -
  let ?ocs = "replayOutcomes env (pendingChanges s) (remote s)"
  let ?zs = "zip (pendingChanges s) ?ocs"
  have wf: "wellKeyed ?zs" using keys by (rule wellKeyed_replay)
  have "isCreated (Created k)" by simp
  then have ex: "list_ex isCreated ?ocs"
    using set_zip_rightD [OF created] unfolding list_ex_iff by blast
  have it: "items (syncPendingChanges env s) = map (rekeyAll ?zs) (items s)"
    by (rule syncPendingChanges_char(2))
  have st: "parseStored (localStorage (syncPendingChanges env s)) =
              map (rekeyAll ?zs) (parseStored (localStorage s))"
    using ex by (simp add: syncPendingChanges_char(3))
  have away: "id' item \<notin> id' ` set (map (rekeyAll ?zs) xs)" for xs
  proof
    assume "id' item \<in> id' ` set (map (rekeyAll ?zs) xs)"
    then obtain p where "id' (rekeyAll ?zs p) = id' item" by auto
    then show False using rekeyAll_created [OF wf created, of p] by simp
  qed
  have key: "\<And>xs j. j < length xs \<Longrightarrow> id' (xs ! j) = id' item \<Longrightarrow>
      \<exists>x k'. (x, Created k') \<in> set ?zs \<and> id' x = id' item \<and>
         map (rekeyAll ?zs) xs ! j = (xs ! j)\<lparr>id' := k'\<rparr>"
    using rekeyAll_takes_key [OF wf created] by simp
  have q: "set (pendingChanges (syncPendingChanges env s)) \<subseteq> set (pendingChanges s)"
    using failedOf_subset [of ?zs] set_zip_leftD [of _ _ "pendingChanges s" ?ocs]
    by (fastforce simp: syncPendingChanges_char(1))
  show ?thesis
    using away [of "items s"] away [of "parseStored (localStorage s)"] key q
    by (simp add: it st)
qed

theorem syncPendingChanges_rekeys_collections_witness:
  "list_all remoteKey (replayOutcomes demoEnv (pendingChanges localQueue) (remote localQueue)) \<and>
   (demoItem ''local-1'' ''Milk'' False, Created ''R1'') \<in>
      set (zip (pendingChanges localQueue)
             (replayOutcomes demoEnv (pendingChanges localQueue) (remote localQueue))) \<and>
   ''local-1'' \<notin> id' ` set (items (syncPendingChanges demoEnv localQueue)) \<and>
   ''local-1'' \<notin> id' ` set (parseStored (localStorage (syncPendingChanges demoEnv localQueue))) \<and>
   items (syncPendingChanges demoEnv localQueue) ! 0 = (items localQueue ! 0)\<lparr>id' := ''R1''\<rparr>"
  using syncPendingChanges_rekeys_collections [of demoEnv localQueue
      "demoItem ''local-1'' ''Milk'' False" "''R1''"]
  by (simp add: localQueue_def demo_defs replayOp_def remoteKey_def)

text \<open>
  The claim as it is stated fails for a record that stays queued: it keeps the
  local id although the item has been created and re-keyed.
\<close>

theorem replay_keeps_queued_local_id_counterexample:
  "map id' (pendingChanges twiceQueued) = [''local-17''] \<and>
   map id' (items twiceQueued) = [''R1''] \<and>
   map id' (parseStored (localStorage twiceQueued)) = [''R1'']"
  by code_simp

section \<open>What each handler does to the collections\<close>

lemma items_handleAddItem:
  "items (handleAddItem env clk s) = items s \<or>
   (\<exists>i c u. items (handleAddItem env clk s) =
      items s @ [newItemData i (newItem s) (parseCurrency env (new_unitPrice (newItem s))) c u])"
  by (auto simp: handleAddItem_def Let_def addLocally_def split: prod.splits option.splits)

lemma items_handleUpdateItem:
  "items (handleUpdateItem env clk i s) =
     (case find (\<lambda>item. id' item = i) (items s) of
        None \<Rightarrow> items s
      | Some itemToUpdate \<Rightarrow>
          map (\<lambda>item. if id' item = i then
                 itemToUpdate\<lparr>name := new_name (newItem s),
                   quantity := new_quantity (newItem s),
                   unitPrice := parseCurrency env (new_unitPrice (newItem s)),
                   total' := new_quantity (newItem s) * parseCurrency env (new_unitPrice (newItem s)),
                   updatedAt := toISOString clk 0\<rparr> else item) (items s))"
  by (simp add: handleUpdateItem_def Let_def split: prod.splits option.splits bool.splits)

lemma handleRemoveItem_char:
  "items (handleRemoveItem env i s) = filter (\<lambda>item. id' item \<noteq> i) (items s)"
  "localStorage (handleRemoveItem env i s) = Some (filter (\<lambda>item. id' item \<noteq> i) (items s))"
  "pendingChanges (handleRemoveItem env i s) = filter (\<lambda>item. id' item \<noteq> i) (pendingChanges s)"
  "isOnline (handleRemoveItem env i s) = isOnline s"
  "calls (handleRemoveItem env i s) =
     calls s @ (if isOnline s \<and> \<not> includes_str i ''local-'' then [DeleteDoc i] else [])"
  by (simp_all add: handleRemoveItem_def Let_def split: prod.splits)

lemma handleRemoveItem_p1_char:
  "items (handleRemoveItem_p1 env i s) = filter (\<lambda>item. id' item \<noteq> i) (items s)"
  "localStorage (handleRemoveItem_p1 env i s) = Some (filter (\<lambda>item. id' item \<noteq> i) (items s))"
  "pendingChanges (handleRemoveItem_p1 env i s) = filter (\<lambda>item. id' item \<noteq> i) (pendingChanges s)"
  "isOnline (handleRemoveItem_p1 env i s) = isOnline s"
  "calls (handleRemoveItem_p1 env i s) =
     calls s @ (if isOnline s \<and> \<not> includes_str i ''local-'' then [DeleteDoc i] else [])"
  by (simp_all add: handleRemoveItem_p1_def Let_def split: prod.splits)

lemma toggleItemCompletion_char:
  "items (toggleItemCompletion env clk i s) =
     (case find (\<lambda>item. id' item = i) (items s) of
        None \<Rightarrow> items s
      | Some itemToUpdate \<Rightarrow>
          map (\<lambda>item. if id' item = i then
                 itemToUpdate\<lparr>completed := \<not> completed itemToUpdate,
                   updatedAt := toISOString clk 0\<rparr> else item) (items s))"
  by (simp add: toggleItemCompletion_def Let_def split: prod.splits option.splits bool.splits)

lemma items_handleUpdateItem_p1:
  "items (handleUpdateItem_p1 env u s) =
     map (\<lambda>item. if id' item = id' u then u else item) (items s)"
  by (simp add: handleUpdateItem_p1_def Let_def split: prod.splits bool.splits)

lemma toggleItemCompletion_p1_char:
  "items (toggleItemCompletion_p1 env clk i s) =
     (case find (\<lambda>item. id' item = i) (items s) of
        None \<Rightarrow> items s
      | Some itemToUpdate \<Rightarrow>
          map (\<lambda>item. if id' item = i then
                 itemToUpdate\<lparr>completed := \<not> completed itemToUpdate,
                   updatedAt := toISOString clk 0\<rparr> else item) (items s))"
  by (auto simp: toggleItemCompletion_p1_def items_handleUpdateItem_p1
      split: option.splits dest: find_Some_D)

lemma id_newItemData [simp]: "id' (newItemData i form p c u) = i"
  by (simp add: newItemData_def)

lemma handleAddItem_offline:
  assumes "\<not> isOnline s" and "new_name (newItem s) \<noteq> []" and "\<not> new_quantity (newItem s) \<le> 0"
  shows "pendingChanges (handleAddItem env clk s) =
           pendingChanges s @
             [newItemData (''local-'' @ dateNow clk) (newItem s)
                (parseCurrency env (new_unitPrice (newItem s))) (toISOString clk 0) (toISOString clk 1)]"
    and "items (handleAddItem env clk s) =
           items s @
             [newItemData (''local-'' @ dateNow clk) (newItem s)
                (parseCurrency env (new_unitPrice (newItem s))) (toISOString clk 0) (toISOString clk 1)]"
    and "calls (handleAddItem env clk s) = calls s"
    and "isOnline (handleAddItem env clk s) = isOnline s"
  using assms by (simp_all add: handleAddItem_def Let_def addLocally_def)

lemma handleOnline_calls:
  "\<not> isOnline s \<Longrightarrow> calls (handleOnline env s) = calls s @ map replayCall (pendingChanges s)"
  by (simp add: handleOnline_def Let_def syncPendingChanges_char(4))

section \<open>Remote calls and local ids\<close>

text \<open>
  In \<^verbatim>\<open>part_000\<close> no handler and no replay issues an update or a delete
  whose key is in the local id space: each such call is guarded by
  \<^verbatim>\<open>!id.includes('local-')\<close>.
\<close>

lemma handleUpdateItem_calls:
  "\<exists>cs. calls (handleUpdateItem env clk i s) = calls s @ cs \<and> \<not> list_ex targetsLocal cs"
proof (cases "find (\<lambda>item. id' item = i) (items s)")
  case None
  then show ?thesis by (simp add: handleUpdateItem_def Let_def)
next
  case (Some itemToUpdate)
  then have "id' itemToUpdate = i" by (auto dest: find_Some_D)
  then show ?thesis using Some
    by (auto simp: handleUpdateItem_def Let_def targetsLocal_def split: prod.splits bool.splits)
qed

lemma toggleItemCompletion_calls:
  "\<exists>cs. calls (toggleItemCompletion env clk i s) = calls s @ cs \<and> \<not> list_ex targetsLocal cs"
proof (cases "find (\<lambda>item. id' item = i) (items s)")
  case None
  then show ?thesis by (simp add: toggleItemCompletion_def Let_def)
next
  case (Some itemToUpdate)
  then have "id' itemToUpdate = i" by (auto dest: find_Some_D)
  then show ?thesis using Some
    by (auto simp: toggleItemCompletion_def Let_def targetsLocal_def split: prod.splits bool.splits)
qed

lemma handleRemoveItem_calls:
  "\<exists>cs. calls (handleRemoveItem env i s) = calls s @ cs \<and> \<not> list_ex targetsLocal cs"
  by (auto simp: handleRemoveItem_char targetsLocal_def)

lemma handleAddItem_calls:
  "\<exists>cs. calls (handleAddItem env clk s) = calls s @ cs \<and> \<not> list_ex targetsLocal cs"
  by (auto simp: handleAddItem_def Let_def addLocally_def targetsLocal_def
      split: prod.splits option.splits)

lemma syncPendingChanges_calls:
  "\<exists>cs. calls (syncPendingChanges env s) = calls s @ cs \<and> \<not> list_ex targetsLocal cs"
  by (auto simp: syncPendingChanges_char(4) list_ex_iff replayCall_def targetsLocal_def)

text \<open>
  C3.  The claim: no mutation (update, toggle, remove) ever issues a remote
  update or delete with a local-space id.  \<^verbatim>\<open>handleUpdateItem\<close> of
  \<^verbatim>\<open>part_001\<close>, which \<^verbatim>\<open>toggleItemCompletion\<close> calls, tests \<^verbatim>\<open>isOnline\<close> only.
  An item added offline keeps its local id when the replay's creation is
  rejected; toggling it while online then issues \<^verbatim>\<open>updateDoc\<close> with the local
  id.
\<close>

theorem toggle_p1_updates_local_id:
  "isOnline localWhileOnline_p1 \<and>
   map id' (items localWhileOnline_p1) = [''local-17''] \<and>
   length (calls localWhileOnline_p1) = 1 \<and>
   drop 1 (calls (toggleItemCompletion_p1 demoEnv (demoClock ''18'') ''local-17''
                    localWhileOnline_p1)) =
     [UpdateDoc ''local-17''
        \<lparr>name = ''Milk'', quantity = 2, unitPrice = 3, total' = 6, completed = True,
         createdAt = ''t1'', updatedAt = ''t1''\<rparr>] \<and>
   list_ex targetsLocal
     (calls (toggleItemCompletion_p1 demoEnv (demoClock ''18'') ''local-17''
               localWhileOnline_p1))"
  by code_simp

section \<open>Startup\<close>

text \<open>
  C4.  When the component is online, the remote listing succeeds with no
  document and the local snapshot is not empty, \<^verbatim>\<open>loadItems\<close> makes the
  snapshot the in-memory collection and leaves the snapshot as it is, in both
  variants.
\<close>

theorem loadItems_remote_empty_keeps_local:
  assumes "isOnline s" and "fst (getDocs env (remote s)) = Some []"
    and "parseStored (localStorage s) \<noteq> []"
  shows "items (loadItems env s) = parseStored (localStorage s) \<and>
         localStorage (loadItems env s) = localStorage s \<and>
         items (loadItems_p1 env s) = parseStored (localStorage s) \<and>
         localStorage (loadItems_p1 env s) = localStorage s"
  using assms
  by (auto simp: loadItems_def loadItems_p1_def Let_def split: prod.splits option.splits)

theorem loadItems_remote_empty_keeps_local_witness:
  "isOnline threeLocal \<and> fst (getDocs demoEnv (remote threeLocal)) = Some [] \<and>
   localStorage threeLocal =
     Some [demoItem ''a1'' ''Milk'' False, demoItem ''local-2'' ''Eggs'' False,
           demoItem ''a3'' ''Tea'' True] \<and>
   items threeLocal = [] \<and>
   items (loadItems demoEnv threeLocal) =
     [demoItem ''a1'' ''Milk'' False, demoItem ''local-2'' ''Eggs'' False,
      demoItem ''a3'' ''Tea'' True] \<and>
   items (loadItems_p1 demoEnv threeLocal) =
     [demoItem ''a1'' ''Milk'' False, demoItem ''local-2'' ''Eggs'' False,
      demoItem ''a3'' ''Tea'' True]"
  using loadItems_remote_empty_keeps_local [of threeLocal demoEnv]
  by (simp add: threeLocal_def initialApp_def demoEnv_def)

section \<open>The aggregate total\<close>

text \<open>
  In \<^verbatim>\<open>part_000\<close> the total is the sum over the items that are not completed
  (for a number type whose addition is associative with unit \<open>0\<close>; the source
  adds from the left, starting from \<open>0\<close>).
\<close>

lemma foldl_total_sum:
  fixes a :: "'n::monoid_add"
  shows "foldl (\<lambda>sum item. sum + total' item) a xs = a + sum_list (map total' xs)"
  by (induction xs arbitrary: a) (simp_all add: add.assoc)

lemma calculateTotal_pending:
  fixes s :: "('n::monoid_add, 'p, 'r) App"
  shows "calculateTotal s = sum_list (map total' (filter (\<lambda>item. \<not> completed item) (items s)))"
  by (simp add: calculateTotal_def foldl_total_sum)

text \<open>In \<^verbatim>\<open>part_001\<close> the total is the sum over all the items.\<close>

lemma calculateTotal_p1_all:
  fixes s :: "('n::monoid_add, 'p, 'r) App"
  shows "calculateTotal_p1 s = sum_list (map total' (items s))"
  by (simp add: calculateTotal_p1_def foldl_total_sum)

text \<open>
  C5.  The claim: \<^verbatim>\<open>calculateTotal\<close> is the sum of the totals of the items that
  are not completed.  \<^verbatim>\<open>calculateTotal\<close> of \<^verbatim>\<open>part_001\<close> has no filter: with
  one completed and one pending item of total 6 each it yields 12, where the
  sum over the pending items, and \<^verbatim>\<open>calculateTotal\<close> of \<^verbatim>\<open>part_000\<close>, is 6.
\<close>

theorem calculateTotal_p1_counts_completed:
  "calculateTotal_p1 oneCompleted = 12 \<and>
   sum_list (map total' (filter (\<lambda>item. \<not> completed item) (items oneCompleted))) = 6 \<and>
   calculateTotal oneCompleted = 6"
  by (simp add: oneCompleted_def calculateTotal_p1_def calculateTotal_def demo_defs)

section \<open>The derived total\<close>

text \<open>
  C6.  The collection of a freshly mounted component satisfies
  \<open>total = quantity * unitPrice\<close> for each of its items, and each mutation of
  \<^verbatim>\<open>part_000\<close> (add, update, remove, toggle) keeps it: a new or an edited item
  gets the product of the quantity and the price it is given, and no handler
  sets the total otherwise.
\<close>

theorem total_is_quantity_times_unitPrice:
  assumes "totalsOk s"
  shows "totalsOk (initialApp online stored r) \<and>
         totalsOk (handleAddItem env clk s) \<and>
         totalsOk (handleUpdateItem env clk i s) \<and>
         totalsOk (handleRemoveItem env i s) \<and>
         totalsOk (toggleItemCompletion env clk i s)"
proof (intro conjI)
  show "totalsOk (initialApp online stored r)"
    by (simp add: totalsOk_def initialApp_def)
  show "totalsOk (handleAddItem env clk s)"
    using items_handleAddItem [of env clk s] assms
    by (auto simp: totalsOk_def newItemData_def)
  show "totalsOk (handleUpdateItem env clk i s)"
    using assms
    by (auto simp: totalsOk_def items_handleUpdateItem list_all_iff split: option.splits)
  show "totalsOk (handleRemoveItem env i s)"
    using assms by (auto simp: totalsOk_def handleRemoveItem_char list_all_iff)
  show "totalsOk (toggleItemCompletion env clk i s)"
    using assms
    by (auto simp: totalsOk_def toggleItemCompletion_char list_all_iff
        split: option.splits dest: find_Some_D)
qed

theorem total_is_quantity_times_unitPrice_witness:
  "totalsOk stocked \<and>
   map total' (items (handleAddItem demoEnv (demoClock ''17'') stocked)) = [6, 6, 12] \<and>
   map total' (items (handleUpdateItem demoEnv (demoClock ''17'') ''a1'' stocked)) = [12, 6] \<and>
   totalsOk (handleAddItem demoEnv (demoClock ''17'') stocked) \<and>
   totalsOk (handleUpdateItem demoEnv (demoClock ''17'') ''a1'' stocked) \<and>
   totalsOk (handleRemoveItem demoEnv ''a1'' stocked) \<and>
   totalsOk (toggleItemCompletion demoEnv (demoClock ''17'') ''a1'' stocked)"
proof -
  have ok: "totalsOk stocked" by code_simp
  have vals: "map total' (items (handleAddItem demoEnv (demoClock ''17'') stocked)) = [6, 6, 12] \<and>
   map total' (items (handleUpdateItem demoEnv (demoClock ''17'') ''a1'' stocked)) = [12, 6]"
    by code_simp
  show ?thesis
    using ok vals total_is_quantity_times_unitPrice
      [OF ok, where env = demoEnv and clk = "demoClock ''17''" and i = "''a1''"
         and online = False and stored = "None :: int ShoppingItem list option"
         and r = "[] :: string option list"]
    by simp
qed

text \<open>
  The mutations of \<^verbatim>\<open>part_001\<close> keep the invariant too, \<^verbatim>\<open>handleUpdateItem\<close>
  being called as the save button calls it.
\<close>

lemma rekey_fields [simp]:
  "total' (rekey a b p) = total' p" "quantity (rekey a b p) = quantity p"
  "unitPrice (rekey a b p) = unitPrice p"
  by (simp_all add: rekey_def)

lemma items_handleAddItem_p1:
  "items (handleAddItem_p1 env clk s) = items s \<or>
   (\<exists>i c u. items (handleAddItem_p1 env clk s) =
      items s @ [newItemData i (newItem s) (new_unitPrice (newItem s)) c u]) \<or>
   (\<exists>i c u a b. items (handleAddItem_p1 env clk s) =
      map (rekey a b) (items s @ [newItemData i (newItem s) (new_unitPrice (newItem s)) c u]))"
proof (cases "new_name (newItem s) = []")
  case True
  then show ?thesis by (simp add: handleAddItem_p1_def)
next
  case False
  let ?item = "newItemData (if isOnline s then randomUUID clk else ''local-'' @ dateNow clk)
                (newItem s) (new_unitPrice (newItem s)) (toISOString clk 0) (toISOString clk 1)"
  obtain res r where a: "addDoc env (remote s) (withoutId ?item) = (res, r)"
    by (cases "addDoc env (remote s) (withoutId ?item)")
  show ?thesis
  proof (cases "isOnline s")
    case off: False
    then have "items (handleAddItem_p1 env clk s) = items s @ [?item]"
      using False by (simp add: handleAddItem_p1_def Let_def)
    then show ?thesis by blast
  next
    case on: True
    show ?thesis
    proof (cases res)
      case None
      then have "items (handleAddItem_p1 env clk s) = items s @ [?item]"
        using False on a by (simp add: handleAddItem_p1_def Let_def)
      then show ?thesis by blast
    next
      case (Some k)
      then have "items (handleAddItem_p1 env clk s) =
          map (rekey (id' ?item) k) (items s @ [?item])"
        using False on a by (simp add: handleAddItem_p1_def Let_def updateLocalItemId_p1_def)
      then show ?thesis by blast
    qed
  qed
qed

lemma totalsOk_p1:
  assumes "totalsOk s"
  shows "totalsOk (handleAddItem_p1 env clk s)"
    and "totalsOk (onSaveClick_p1 env clk item s)"
    and "totalsOk (handleRemoveItem_p1 env i s)"
    and "totalsOk (toggleItemCompletion_p1 env clk i s)"
proof -
  show "totalsOk (handleAddItem_p1 env clk s)"
    using items_handleAddItem_p1 [of env clk s] assms
    by (auto simp: totalsOk_def newItemData_def list_all_iff)
  show "totalsOk (onSaveClick_p1 env clk item s)"
    using assms
    by (auto simp: totalsOk_def onSaveClick_p1_def items_handleUpdateItem_p1 list_all_iff)
  show "totalsOk (handleRemoveItem_p1 env i s)"
    using assms by (auto simp: totalsOk_def handleRemoveItem_p1_char list_all_iff)
  show "totalsOk (toggleItemCompletion_p1 env clk i s)"
    using assms
    by (auto simp: totalsOk_def toggleItemCompletion_p1_char list_all_iff
        split: option.splits dest: find_Some_D)
qed

section \<open>Validation\<close>

text \<open>
  \<^verbatim>\<open>handleAddItem\<close> of \<^verbatim>\<open>part_000\<close> returns at once, the state untouched, on an
  empty name or a quantity that is not positive; that of \<^verbatim>\<open>part_001\<close> on an
  empty name.
\<close>

lemma handleAddItem_rejects:
  "new_name (newItem s) = [] \<or> new_quantity (newItem s) \<le> 0 \<Longrightarrow> handleAddItem env clk s = s"
  by (simp add: handleAddItem_def)

lemma handleAddItem_p1_rejects:
  "new_name (newItem s) = [] \<Longrightarrow> handleAddItem_p1 env clk s = s"
  by (simp add: handleAddItem_p1_def)

text \<open>
  C7.  The claim: every mutation call with an empty name or a non-positive
  quantity is rejected before any state change.  \<^verbatim>\<open>handleAddItem\<close> of
  \<^verbatim>\<open>part_001\<close> does not test the quantity: with the quantity \<open>0\<close> it adds the
  item, saves it and queues it.  \<^verbatim>\<open>handleUpdateItem\<close> of \<^verbatim>\<open>part_000\<close> tests
  neither: with an empty name and the quantity \<open>0\<close> it rewrites the item and
  queues the result.
\<close>

theorem malformed_input_accepted:
  "new_quantity (newItem zeroQuantity_p1) \<le> 0 \<and>
   items zeroQuantity_p1 = [] \<and> pendingChanges zeroQuantity_p1 = [] \<and>
   localStorage zeroQuantity_p1 = None \<and>
   map name (items (handleAddItem_p1 demoEnv (demoClock ''17'') zeroQuantity_p1)) = [''Milk''] \<and>
   map quantity (items (handleAddItem_p1 demoEnv (demoClock ''17'') zeroQuantity_p1)) = [0] \<and>
   map id' (pendingChanges (handleAddItem_p1 demoEnv (demoClock ''17'') zeroQuantity_p1)) =
     [''local-17''] \<and>
   localStorage (handleAddItem_p1 demoEnv (demoClock ''17'') zeroQuantity_p1) \<noteq> None \<and>
   new_name (newItem emptyNameEdit) = [] \<and> new_quantity (newItem emptyNameEdit) \<le> 0 \<and>
   map name (items emptyNameEdit) = [''Milk''] \<and>
   map name (items (handleUpdateItem demoEnv (demoClock ''17'') ''a1'' emptyNameEdit)) = [[]] \<and>
   map quantity (items (handleUpdateItem demoEnv (demoClock ''17'') ''a1'' emptyNameEdit)) = [0] \<and>
   length (pendingChanges (handleUpdateItem demoEnv (demoClock ''17'') ''a1'' emptyNameEdit)) = 1"
  by code_simp

section \<open>Removal and the queue\<close>

lemma updateLocalItemId_p1_calls [simp]:
  "calls (updateLocalItemId_p1 its a b s) = calls s"
  "remote (updateLocalItemId_p1 its a b s) = remote s"
  by (simp_all add: updateLocalItemId_p1_def)

lemma syncLoop_p1_calls:
  "set (calls (fst (syncLoop_p1 env its recs s))) \<subseteq> set (calls s) \<union> replayCall ` set recs"
proof (induction recs arbitrary: s)
  case Nil
  show ?case by simp
next
  case (Cons item rest)
  show ?case
  proof (cases "includes_str (id' item) ''local-''")
    case False
    obtain ok r where u: "updateDoc env (remote s) (id' item) (withoutId item) = (ok, r)"
      by (cases "updateDoc env (remote s) (id' item) (withoutId item)")
    show ?thesis
      using False u Cons.IH [of "logCall (UpdateDoc (id' item) (withoutId item)) r s"]
      by (cases ok) (auto simp: replayCall_def)
  next
    case True
    obtain res r where a: "addDoc env (remote s) (withoutId item) = (res, r)"
      by (cases "addDoc env (remote s) (withoutId item)")
    show ?thesis
    proof (cases res)
      case None
      then show ?thesis using True a by (auto simp: replayCall_def)
    next
      case (Some docRef)
      then show ?thesis
        using True a
          Cons.IH [of "updateLocalItemId_p1 its (id' item) docRef
                         (logCall (AddDoc (withoutId item)) r s)"]
        by (auto simp: replayCall_def)
    qed
  qed
qed

lemma loadItems_p1_calls:
  "set (calls (loadItems_p1 env s)) \<subseteq> set (calls s) \<union> {GetDocs}"
  by (auto simp: loadItems_p1_def Let_def split: prod.splits option.splits if_splits)

lemma syncPendingChanges_p1_calls:
  "set (calls (syncPendingChanges_p1 env s)) \<subseteq>
     set (calls s) \<union> replayCall ` set (pendingChanges s) \<union> {GetDocs}"
proof -
  obtain s1 ok where l: "syncLoop_p1 env (items s) (pendingChanges s) s = (s1, ok)"
    by (cases "syncLoop_p1 env (items s) (pendingChanges s) s")
  have c: "set (calls s1) \<subseteq> set (calls s) \<union> replayCall ` set (pendingChanges s)"
    using syncLoop_p1_calls [of env "items s" "pendingChanges s" s] l by simp
  show ?thesis
  proof (cases ok)
    case True
    then show ?thesis
      using l c loadItems_p1_calls [of env "s1\<lparr>pendingChanges := []\<rparr>"]
      by (auto simp: syncPendingChanges_p1_def)
  next
    case False
    then show ?thesis using l c by (auto simp: syncPendingChanges_p1_def)
  qed
qed

text \<open>
  C8.  After \<^verbatim>\<open>handleRemoveItem\<close> the queue holds no record with the removed
  id, and a replay that follows issues exactly one call for each record that is
  still queued, so none for the removed id.  When an item is added offline and
  removed before the component comes online, the queue is the old queue
  without the records of that id, and coming online issues the calls of those
  records only.  In \<^verbatim>\<open>part_001\<close> too the queue holds no record with the
  removed id, and every call of a replay is the call of a queued record or the
  listing that follows the replay.
\<close>

theorem handleRemoveItem_clears_queue:
  "i \<notin> id' ` set (pendingChanges (handleRemoveItem env i s)) \<and>
   calls (syncPendingChanges env (handleRemoveItem env i s)) =
     calls (handleRemoveItem env i s) @ map replayCall (pendingChanges (handleRemoveItem env i s)) \<and>
   (\<not> isOnline s \<and> new_name (newItem s) \<noteq> [] \<and> \<not> new_quantity (newItem s) \<le> 0 \<longrightarrow>
      pendingChanges
        (handleRemoveItem env (''local-'' @ dateNow clk) (handleAddItem env clk s)) =
        filter (\<lambda>item. id' item \<noteq> ''local-'' @ dateNow clk) (pendingChanges s) \<and>
      calls (handleOnline env
               (handleRemoveItem env (''local-'' @ dateNow clk) (handleAddItem env clk s))) =
        calls s @
          map replayCall (filter (\<lambda>item. id' item \<noteq> ''local-'' @ dateNow clk) (pendingChanges s))) \<and>
   i \<notin> id' ` set (pendingChanges (handleRemoveItem_p1 env i s)) \<and>
   set (calls (syncPendingChanges_p1 env (handleRemoveItem_p1 env i s))) \<subseteq>
     set (calls (handleRemoveItem_p1 env i s)) \<union>
     replayCall ` set (pendingChanges (handleRemoveItem_p1 env i s)) \<union> {GetDocs}"
proof (intro conjI impI)
  show "i \<notin> id' ` set (pendingChanges (handleRemoveItem env i s))"
    by (auto simp: handleRemoveItem_char)
  show "calls (syncPendingChanges env (handleRemoveItem env i s)) =
     calls (handleRemoveItem env i s) @ map replayCall (pendingChanges (handleRemoveItem env i s))"
    by (rule syncPendingChanges_char(4))
  show "i \<notin> id' ` set (pendingChanges (handleRemoveItem_p1 env i s))"
    by (auto simp: handleRemoveItem_p1_char)
  show "set (calls (syncPendingChanges_p1 env (handleRemoveItem_p1 env i s))) \<subseteq>
     set (calls (handleRemoveItem_p1 env i s)) \<union>
     replayCall ` set (pendingChanges (handleRemoveItem_p1 env i s)) \<union> {GetDocs}"
    by (rule syncPendingChanges_p1_calls)
next
  assume h: "\<not> isOnline s \<and> new_name (newItem s) \<noteq> [] \<and> \<not> new_quantity (newItem s) \<le> 0"
  let ?i = "''local-'' @ dateNow clk"
  let ?s2 = "handleRemoveItem env ?i (handleAddItem env clk s)"
  from h have off: "\<not> isOnline s" and nm: "new_name (newItem s) \<noteq> []"
    and q: "\<not> new_quantity (newItem s) \<le> 0" by simp_all
  show p: "pendingChanges ?s2 = filter (\<lambda>item. id' item \<noteq> ?i) (pendingChanges s)"
    by (simp add: handleRemoveItem_char handleAddItem_offline(1) [OF off nm q])
  have "\<not> isOnline ?s2"
    by (simp add: handleRemoveItem_char handleAddItem_offline(4) [OF off nm q] off)
  moreover have "calls ?s2 = calls s"
    by (simp add: handleRemoveItem_char handleAddItem_offline(3,4) [OF off nm q] off)
  ultimately show "calls (handleOnline env ?s2) =
      calls s @ map replayCall (filter (\<lambda>item. id' item \<noteq> ?i) (pendingChanges s))"
    using p by (simp add: handleOnline_calls)
qed

theorem handleRemoveItem_clears_queue_witness:
  "\<not> isOnline offlineForm \<and> new_name (newItem offlineForm) \<noteq> [] \<and>
   \<not> new_quantity (newItem offlineForm) \<le> 0 \<and>
   map id' (pendingChanges (handleAddItem demoEnv (demoClock ''17'') offlineForm)) = [''local-17''] \<and>
   pendingChanges
     (handleRemoveItem demoEnv ''local-17'' (handleAddItem demoEnv (demoClock ''17'') offlineForm)) = [] \<and>
   calls (handleOnline demoEnv
            (handleRemoveItem demoEnv ''local-17''
               (handleAddItem demoEnv (demoClock ''17'') offlineForm))) = []"
proof -
  have h: "\<not> isOnline offlineForm \<and> new_name (newItem offlineForm) \<noteq> [] \<and>
   \<not> new_quantity (newItem offlineForm) \<le> 0" by code_simp
  have a: "map id' (pendingChanges (handleAddItem demoEnv (demoClock ''17'') offlineForm)) =
      [''local-17'']" by code_simp
  have e: "pendingChanges offlineForm = [] \<and> calls offlineForm = [] \<and>
      ''local-'' @ dateNow (demoClock ''17'') = ''local-17''" by code_simp
  show ?thesis
    using handleRemoveItem_clears_queue [of "''local-17''" demoEnv offlineForm "demoClock ''17''"]
      h a e by simp
qed

section \<open>Toggling\<close>

lemma find_distinct_nth:
  "distinct (map f xs) \<Longrightarrow> k < length xs \<Longrightarrow> find (\<lambda>x. f x = f (xs ! k)) xs = Some (xs ! k)"
proof (induction xs arbitrary: k)
  case Nil
  then show ?case by simp
next
  case (Cons a xs)
  show ?case
  proof (cases k)
    case 0
    then show ?thesis by simp
  next
    case (Suc j)
    then have j: "j < length xs" using Cons.prems by simp
    then have "f (xs ! j) \<in> f ` set xs" by simp
    then have "f a \<noteq> f (xs ! j)" using Cons.prems(1) by auto
    then show ?thesis using Cons.IH [of j] Cons.prems j Suc by simp
  qed
qed

lemma map_replace_distinct_nth:
  "distinct (map f xs) \<Longrightarrow> k < length xs \<Longrightarrow>
   map (\<lambda>x. if f x = f (xs ! k) then y else x) xs = xs[k := y]"
proof (induction xs arbitrary: k)
  case Nil
  then show ?case by simp
next
  case (Cons a xs)
  show ?case
  proof (cases k)
    case 0
    have "f a \<notin> f ` set xs" using Cons.prems(1) by simp
    then have "\<And>x. x \<in> set xs \<Longrightarrow> f x \<noteq> f a" by (metis imageI)
    then have "map (\<lambda>x. if f x = f a then y else x) xs = xs" by (simp add: map_idI)
    then show ?thesis using 0 by simp
  next
    case (Suc j)
    then have j: "j < length xs" using Cons.prems by simp
    then have "f (xs ! j) \<in> f ` set xs" by simp
    then have "f a \<noteq> f (xs ! j)" using Cons.prems(1) by auto
    then show ?thesis using Cons.IH [of j] Cons.prems j Suc by simp
  qed
qed

text \<open>
  C9.  In a collection whose ids are distinct, \<^verbatim>\<open>toggleItemCompletion\<close> on
  the id of the item at position \<open>k\<close> yields the same list with that item's
  \<^verbatim>\<open>completed\<close> negated and its \<^verbatim>\<open>updatedAt\<close> set to the clock's reading: the
  item's other fields, the other items and the length are as before.  The
  same holds in \<^verbatim>\<open>part_001\<close>.
\<close>

theorem toggleItemCompletion_frame:
  assumes "distinct (map id' (items s))" and "k < length (items s)"
  shows "items (toggleItemCompletion env clk (id' (items s ! k)) s) =
           (items s)[k := (items s ! k)\<lparr>completed := \<not> completed (items s ! k),
                                        updatedAt := toISOString clk 0\<rparr>] \<and>
         items (toggleItemCompletion_p1 env clk (id' (items s ! k)) s) =
           (items s)[k := (items s ! k)\<lparr>completed := \<not> completed (items s ! k),
                                        updatedAt := toISOString clk 0\<rparr>] \<and>
         length (items (toggleItemCompletion env clk (id' (items s ! k)) s)) = length (items s) \<and>
         (\<forall>j. j \<noteq> k \<longrightarrow>
            items (toggleItemCompletion env clk (id' (items s ! k)) s) ! j = items s ! j) \<and>
         completed (items (toggleItemCompletion env clk (id' (items s ! k)) s) ! k) =
           (\<not> completed (items s ! k)) \<and>
         updatedAt (items (toggleItemCompletion env clk (id' (items s ! k)) s) ! k) =
           toISOString clk 0 \<and>
         id' (items (toggleItemCompletion env clk (id' (items s ! k)) s) ! k) = id' (items s ! k) \<and>
         name (items (toggleItemCompletion env clk (id' (items s ! k)) s) ! k) = name (items s ! k) \<and>
         quantity (items (toggleItemCompletion env clk (id' (items s ! k)) s) ! k) =
           quantity (items s ! k) \<and>
         unitPrice (items (toggleItemCompletion env clk (id' (items s ! k)) s) ! k) =
           unitPrice (items s ! k) \<and>
         total' (items (toggleItemCompletion env clk (id' (items s ! k)) s) ! k) =
           total' (items s ! k) \<and>
         createdAt (items (toggleItemCompletion env clk (id' (items s ! k)) s) ! k) =
           createdAt (items s ! k)"
proof -
  let ?y = "(items s ! k)\<lparr>completed := \<not> completed (items s ! k),
                          updatedAt := toISOString clk 0\<rparr>"
  have e: "items (toggleItemCompletion env clk (id' (items s ! k)) s) = (items s)[k := ?y]"
    using find_distinct_nth [OF assms] map_replace_distinct_nth [OF assms]
    by (simp add: toggleItemCompletion_char)
  have e1: "items (toggleItemCompletion_p1 env clk (id' (items s ! k)) s) = (items s)[k := ?y]"
    using find_distinct_nth [OF assms] map_replace_distinct_nth [OF assms]
    by (simp add: toggleItemCompletion_p1_char)
  have n: "(items s)[k := ?y] ! k = ?y" using assms(2) by simp
  show ?thesis unfolding e e1 n by simp
qed

theorem toggleItemCompletion_frame_witness:
  "distinct (map id' (items stocked)) \<and> (1::nat) < length (items stocked) \<and>
   id' (items stocked ! 1) = ''local-2'' \<and>
   items (toggleItemCompletion demoEnv (demoClock ''17'') ''local-2'' stocked) =
     [demoItem ''a1'' ''Milk'' False, (demoItem ''local-2'' ''Eggs'' False)\<lparr>updatedAt := ''t1''\<rparr>]"
proof -
  have d: "distinct (map id' (items stocked))" by code_simp
  have l: "(1::nat) < length (items stocked)" by code_simp
  have i: "id' (items stocked ! 1) = ''local-2''" by code_simp
  have v: "(items stocked)[1 := (items stocked ! 1)\<lparr>completed := \<not> completed (items stocked ! 1),
                 updatedAt := toISOString (demoClock ''17'') 0\<rparr>] =
     [demoItem ''a1'' ''Milk'' False, (demoItem ''local-2'' ''Eggs'' False)\<lparr>updatedAt := ''t1''\<rparr>]"
    by (simp add: stocked_def demo_defs)
  show ?thesis
    using toggleItemCompletion_frame [OF d l, of demoEnv "demoClock ''17''"] d l i v by simp
qed

section \<open>The snapshot follows the collection\<close>

text \<open>
  In \<^verbatim>\<open>part_000\<close> the snapshot is the collection once \<^verbatim>\<open>loadItems\<close> has run
  in the freshly mounted component, and every handler, the replay and the
  connectivity events keep it so: each of them writes both or neither.
\<close>

lemma synced_loadItems_initialApp: "synced (loadItems env (initialApp online stored r))"
  by (simp add: synced_def loadItems_def initialApp_def Let_def
      split: prod.splits option.splits)

lemma synced_handleAddItem: "synced s \<Longrightarrow> synced (handleAddItem env clk s)"
  by (simp add: synced_def handleAddItem_def Let_def addLocally_def
      split: prod.splits option.splits)

lemma synced_handleUpdateItem: "synced s \<Longrightarrow> synced (handleUpdateItem env clk i s)"
  by (simp add: synced_def handleUpdateItem_def Let_def
      split: prod.splits option.splits bool.splits)

lemma synced_toggleItemCompletion: "synced s \<Longrightarrow> synced (toggleItemCompletion env clk i s)"
  by (simp add: synced_def toggleItemCompletion_def Let_def
      split: prod.splits option.splits bool.splits)

lemma synced_handleRemoveItem: "synced (handleRemoveItem env i s)"
  by (simp add: synced_def handleRemoveItem_char)

lemma synced_syncPendingChanges:
  assumes "synced s"
  shows "synced (syncPendingChanges env s)"
proof -
  let ?ocs = "replayOutcomes env (pendingChanges s) (remote s)"
  let ?zs = "zip (pendingChanges s) ?ocs"
  show ?thesis
  proof (cases "list_ex isCreated ?ocs")
    case True
    then show ?thesis
      using assms by (simp add: synced_def syncPendingChanges_char(2,3))
  next
    case False
    then have "\<not> list_ex isCreated (map snd ?zs)" by (simp add: map_snd_zip)
    then have "map (rekeyAll ?zs) (items s) = items s"
      by (simp add: rekeyAll_none_created map_idI)
    then show ?thesis
      using assms False by (simp add: synced_def syncPendingChanges_char(2,3))
  qed
qed

lemma synced_handleOnline: "synced s \<Longrightarrow> synced (handleOnline env s)"
proof -
  assume a: "synced s"
  then have "synced (s\<lparr>isOnline := True\<rparr>)" by (simp add: synced_def)
  then show ?thesis
    using a synced_syncPendingChanges [of "s\<lparr>isOnline := True\<rparr>" env]
    by (simp add: handleOnline_def Let_def)
qed

lemma synced_handleOffline: "synced s \<Longrightarrow> synced (handleOffline s)"
  by (simp add: synced_def handleOffline_def)

section \<open>Removing an absent id\<close>




end
